theory Spec2Isabelle
  imports Main "HOL-Library.Multiset" "HOL-Library.Sublist" "HOL-Library.List_Lexorder"
    "HOL-Library.Char_ord"
begin

section \<open>Exceptions\<close>

text \<open>
  The Python exceptions that the program can meet.  \<open>get_data\<close> catches
  \<open>requests.RequestException\<close> only; the classes below it are the ones that
  \<open>requests.get\<close>, \<open>raise_for_status\<close> and \<open>response.json\<close> raise
  (\<open>requests.exceptions.JSONDecodeError\<close> derives from \<open>RequestException\<close>
  since requests 2.27).  The other classes are raised by the dictionary lookup,
  by pandas and by the \<open>os\<close> calls; all of them derive from \<open>Exception\<close>.
\<close>

datatype request_error = HTTPError | ConnectionError | Timeout | JSONDecodeError

datatype exn =
    RequestException request_error
  | KeyError
  | ValueError
  | TypeError
  | InvalidIndexError
  | OSError

section \<open>Configuration\<close>

definition API_KEY :: string where
  "API_KEY = ''YOUR_API_KEY_HERE''"

definition OUTPUT_DIR :: string where
  "OUTPUT_DIR = ''economic_indicators_data''"

definition SERIES_IDS :: "(string \<times> string) list" where
  "SERIES_IDS =
    [(''UNRATE'', ''unemployment Ratio''),
     (''SAHMREALTIME'', ''Real-time Sahm Rule Recession Indicator''),
     (''ICSA'', ''Initial Claims''),
     (''USCONS'', ''All Employees, Construction''),
     (''JTSJOL'', ''Job Openings: Total Nonfarm''),
     (''DTWEXBGS'', ''Dollar index''),
     (''DCOILWTICO'', ''WTI Crude Oil''),
     (''CES4348400001'', ''All Employees, Truck Transportation''),
     (''M2SL'', ''M2''),
     (''M2V'', ''M2V''),
     (''GDPC1'', ''Real GDP''),
     (''AMTMNO'', ''PMI - New Orders''),
     (''BAMLH0A0HYM2EY'', ''High-Yield''),
     (''DGS10'', ''10 year treasury''),
     (''DGS2'', ''2 year treasury''),
     (''FEDFUNDS'', ''Federal Funds Effective Rate''),
     (''MORTGAGE30US'', ''30-Year Fixed Rate Mortgage Average in the United States''),
     (''CPIAUCSL'', ''Consumer Price Index for All Urban Consumers: All Items in U.S. City Average''),
     (''COMREPUSQ159N'', ''Commercial Real Estate Prices''),
     (''HPIPONM226S'', ''House Price Index (Purchase only)''),
     (''SP500'', ''s&p 500''),
     (''NASDAQCOM'', ''NASDAQ Composite Index''),
     (''DJCA'', ''Dow Jones Composite Average'')]"

section \<open>The upstream service\<close>

text \<open>
  One observation record of the JSON body is a Python dict with string values,
  kept as an association list in document order.  The decoded body is a dict
  from field names to arrays of such records; the program reads the field
  \<open>observations\<close> only.  A request ends either in an exception of the
  \<open>requests\<close> library or in a decoded body.
\<close>

type_synonym observation = "(string \<times> string) list"

type_synonym body = "string \<rightharpoonup> observation list"

datatype response = Request_failed request_error | Json body

definition url :: "string \<Rightarrow> string \<Rightarrow> string" where
  "url series_id api_key =
     ''https://api.stlouisfed.org/fred/series/observations?series_id='' @ series_id
       @ ''&api_key='' @ api_key @ ''&file_type=json''"

section \<open>Data frames\<close>

text \<open>
  A pandas \<open>DataFrame\<close>, column-major as pandas keeps it: the row labels and
  the named columns, each column as long as the index.  A cell is a string or
  missing (\<open>NaN\<close>).  Column labels may repeat, as pandas allows.
\<close>

type_synonym cell = "string option"

record 'l dataframe =
  index :: "'l list"
  columns :: "(string \<times> cell list) list"

definition names :: "'l dataframe \<Rightarrow> string list" where
  "names df = map fst (columns df)"

text \<open>\<open>pd.DataFrame()\<close>\<close>

definition empty_frame :: "cell dataframe" where
  "empty_frame = \<lparr>index = [], columns = []\<rparr>"

text \<open>\<open>df.empty\<close>: some axis has length zero.\<close>

definition df_empty :: "'l dataframe \<Rightarrow> bool" where
  "df_empty df \<longleftrightarrow> index df = [] \<or> columns df = []"

text \<open>The distinct elements of a list in the order of their first occurrence.\<close>

definition first_seen :: "'a list \<Rightarrow> 'a list" where
  "first_seen xs = rev (remdups (rev xs))"

text \<open>
  \<open>pd.DataFrame(records)\<close> for a list of dicts: the columns are the keys in
  the order in which they first occur, a record without a key gets \<open>NaN\<close>
  there, and the index is \<open>0, 1, ...\<close>
\<close>

definition DataFrame :: "observation list \<Rightarrow> nat dataframe" where
  "DataFrame records =
     \<lparr>index = [0..<length records],
      columns = map (\<lambda>k. (k, map (\<lambda>r. map_of r k) records))
                    (first_seen (concat (map (map fst) records)))\<rparr>"

text \<open>\<open>df.rename(columns={old: new})\<close>\<close>

definition rename_columns :: "string \<Rightarrow> string \<Rightarrow> 'l dataframe \<Rightarrow> 'l dataframe" where
  "rename_columns old new df =
     \<lparr>index = index df,
      columns = map (\<lambda>(n, c). (if n = old then new else n, c)) (columns df)\<rparr>"

text \<open>All columns that carry a label, in position order.\<close>

definition labelled :: "string \<Rightarrow> 'l dataframe \<Rightarrow> cell list list" where
  "labelled key df = map snd (filter (\<lambda>(n, c). n = key) (columns df))"

text \<open>
  \<open>df.set_index(key)\<close>: \<open>KeyError\<close> when no column has the label;
  otherwise the column becomes the index and leaves the columns.  Where the
  label repeats pandas does not raise: it builds the index from all the columns
  that carry the label, and all of them leave the columns.  Such an index is
  kept here as the cells of the first of these columns.  \<open>get_data\<close> never
  reads it: there the label \<open>date\<close> repeats only for the display name
  \<open>date\<close>, and line 62 then finds no column of that name.
\<close>

definition set_index :: "string \<Rightarrow> 'l dataframe \<Rightarrow> exn + cell dataframe" where
  "set_index key df =
     (case labelled key df of
        [] \<Rightarrow> Inl KeyError
      | col # _ \<Rightarrow> Inr \<lparr>index = col, columns = filter (\<lambda>(n, c). n \<noteq> key) (columns df)\<rparr>)"

text \<open>Selection by a boolean mask, \<open>df[mask]\<close>.\<close>

definition keep :: "bool list \<Rightarrow> 'a list \<Rightarrow> 'a list" where
  "keep bs xs = map snd (filter fst (zip bs xs))"

definition mask_rows :: "bool list \<Rightarrow> 'l dataframe \<Rightarrow> 'l dataframe" where
  "mask_rows bs df =
     \<lparr>index = keep bs (index df),
      columns = map (\<lambda>(n, c). (n, keep bs c)) (columns df)\<rparr>"

text \<open>
  \<open>pd.to_numeric(col, errors='coerce').notna()\<close>.  The parameter \<open>numeric\<close>
  says of a string whether pandas parses it to a number other than \<open>NaN\<close>; a
  missing cell stays \<open>NaN\<close>.
\<close>

definition notna_numeric :: "(string \<Rightarrow> bool) \<Rightarrow> cell list \<Rightarrow> bool list" where
  "notna_numeric numeric col = map (\<lambda>c. case c of None \<Rightarrow> False | Some s \<Rightarrow> numeric s) col"

text \<open>\<open>df.loc[:, ~df.columns.str.startswith('realtime')]\<close>\<close>

definition drop_realtime :: "'l dataframe \<Rightarrow> 'l dataframe" where
  "drop_realtime df =
     \<lparr>index = index df,
      columns = filter (\<lambda>(n, c). \<not> prefix ''realtime'' n) (columns df)\<rparr>"

section \<open>The series fetcher\<close>

text \<open>
  \<open>get_data\<close>, lines 43 to 71.  \<open>http\<close> is the upstream service: what the three
  calls \<open>requests.get\<close>, \<open>raise_for_status\<close> and \<open>response.json\<close> end in for
  a URL.  The result is \<open>Inl\<close> for an exception that leaves the function.  The
  handler of line 69 returns \<open>pd.DataFrame()\<close>; the record that it logs from
  the worker thread has no part in the result and is left out.
\<close>

definition get_data ::
  "(string \<Rightarrow> bool) \<Rightarrow> (string \<Rightarrow> response) \<Rightarrow> string \<Rightarrow> string \<Rightarrow> string \<Rightarrow> exn + cell dataframe"
where
  "get_data numeric http series_id series_name api_key =
     (case http (url series_id api_key) of
        Request_failed e \<Rightarrow> Inr empty_frame
      | Json data \<Rightarrow>
          (case data ''observations'' of
             None \<Rightarrow> Inl KeyError
           | Some records \<Rightarrow>
               (case set_index ''date'' (rename_columns ''value'' series_name (DataFrame records)) of
                  Inl e \<Rightarrow> Inl e
                | Inr df \<Rightarrow>
                    (case labelled series_name df of
                       [] \<Rightarrow> Inl KeyError
                     | [col] \<Rightarrow> Inr (drop_realtime (mask_rows (notna_numeric numeric col) df))
                     | _ \<Rightarrow> Inl TypeError))))"

section \<open>The merger\<close>

text \<open>
  Reindexing one column to new row labels: the cell of the first row that
  carries the label, \<open>NaN\<close> where no row does.
\<close>

definition reindex :: "'l list \<Rightarrow> cell list \<Rightarrow> 'l list \<Rightarrow> cell list" where
  "reindex idx col new_index =
     map (\<lambda>l. case map_of (zip idx col) l of None \<Rightarrow> None | Some v \<Rightarrow> v) new_index"

text \<open>
  \<open>pd.concat(objs, axis=1, join='outer')\<close>.  An empty list is a
  \<open>ValueError\<close> (``No objects to concatenate'').  Frames with equal indexes
  are put side by side as they are.  Otherwise the new index is the union of
  the labels in the order of their first occurrence and every frame is
  reindexed to it, which pandas refuses (\<open>InvalidIndexError\<close>) for a frame
  whose own labels repeat.
\<close>

definition pd_concat :: "'l dataframe list \<Rightarrow> exn + 'l dataframe" where
  "pd_concat objs =
     (case objs of
        [] \<Rightarrow> Inl ValueError
      | df0 # _ \<Rightarrow>
          if list_all (\<lambda>df. index df = index df0) objs
          then Inr \<lparr>index = index df0, columns = concat (map columns objs)\<rparr>
          else if list_ex (\<lambda>df. \<not> distinct (index df)) objs then Inl InvalidIndexError
          else
            let new_index = first_seen (concat (map index objs))
            in Inr \<lparr>index = new_index,
                    columns = concat (map (\<lambda>df. map (\<lambda>(n, c). (n, reindex (index df) c new_index))
                                                 (columns df)) objs)\<rparr>)"

text \<open>
  \<open>df.index = pd.to_datetime(df.index)\<close>.  The parameter \<open>convert\<close> is
  what \<open>pd.to_datetime\<close> makes of a whole index in one run: the converted
  labels, one for each label, or \<open>None\<close> where pandas raises (a
  \<open>ValueError\<close>).  It is given the index and not one label at a time: pandas
  infers one format from the first label that it can read and holds the other
  labels to it, so that what a label converts to, and whether the call raises,
  may depend on the other labels and on their order; and it reads the clock for
  labels such as \<open>now\<close> and \<open>today\<close>, so that two runs may convert
  differently.  The type \<open>'d\<close> is ordered the way pandas orders the converted
  labels.
\<close>

definition to_datetime :: "(cell list \<Rightarrow> 'd list option) \<Rightarrow> cell dataframe \<Rightarrow> exn + 'd dataframe" where
  "to_datetime convert df =
     (case convert (index df) of
        None \<Rightarrow> Inl ValueError
      | Some ds \<Rightarrow> Inr \<lparr>index = ds, columns = columns df\<rparr>)"

text \<open>
  \<open>df.sort_index()\<close>: the rows in ascending order of their labels.  Rows
  that share a label stay in their order here; pandas fixes no order for them.
\<close>

definition sort_index :: "('d::linorder) dataframe \<Rightarrow> 'd dataframe" where
  "sort_index df =
     \<lparr>index = sort (index df),
      columns = map (\<lambda>(n, c). (n, map snd (sort_key fst (zip (index df) c)))) (columns df)\<rparr>"

text \<open>\<open>df[labels]\<close> for a list of labels, each present: label by label, every column that carries it.\<close>

definition select_columns :: "string list \<Rightarrow> 'l dataframe \<Rightarrow> 'l dataframe" where
  "select_columns labels df =
     \<lparr>index = index df,
      columns = concat (map (\<lambda>l. filter (\<lambda>(n, c). n = l) (columns df)) labels)\<rparr>"

text \<open>Lines 108 to 115 of \<open>main\<close>: from the collected frames to the merged one.\<close>

definition columns_order :: "'l dataframe \<Rightarrow> string list" where
  "columns_order merged_df = filter (\<lambda>col. col \<in> set (names merged_df)) (map snd SERIES_IDS)"

definition merge :: "(cell list \<Rightarrow> 'd list option) \<Rightarrow> cell dataframe list \<Rightarrow> exn + ('d::linorder) dataframe" where
  "merge convert dfs =
     (case pd_concat dfs of
        Inl e \<Rightarrow> Inl e
      | Inr df1 \<Rightarrow>
          (case to_datetime convert df1 of
             Inl e \<Rightarrow> Inl e
           | Inr df2 \<Rightarrow>
               let df3 = sort_index (drop_realtime df2)
               in Inr (select_columns (columns_order df3) df3)))"

section \<open>The writer and the cleanup\<close>

text \<open>
  The file system maps a path, as it is written, to a file with its contents or
  to a directory; the log holds the records of the main thread.  The text of a
  file is what \<open>to_csv\<close>, a parameter, makes of a frame.
\<close>

datatype 'f node = File 'f | Dir

datatype log_entry =
    Done string
  | Failed string exn
  | Saved string
  | Deleted string

record 'f world =
  fs :: "string \<rightharpoonup> 'f node"
  log :: "log_entry list"

text \<open>\<open>os.path.join\<close> of two components (POSIX).\<close>

definition path_join :: "string \<Rightarrow> string \<Rightarrow> string" where
  "path_join a b =
     (if prefix ''/'' b then b
      else if a = [] \<or> suffix ''/'' a then a @ b
      else a @ ''/'' @ b)"

text \<open>
  \<open>os.path.dirname\<close> (POSIX): the path up to its last slash, without the
  slashes at its end unless it consists of slashes only.
\<close>

definition dirname :: "string \<Rightarrow> string" where
  "dirname p =
     (let head = rev (dropWhile (\<lambda>c. c \<noteq> CHR ''/'') (rev p))
      in if list_all (\<lambda>c. c = CHR ''/'') head then head
         else rev (dropWhile (\<lambda>c. c = CHR ''/'') (rev head)))"

text \<open>
  Whether a file can be opened for writing at a path: the path names a file
  (it is not empty, does not end in a slash and is no directory) in a directory
  that exists; the working directory and the root always do.
\<close>

definition can_write :: "(string \<rightharpoonup> 'f node) \<Rightarrow> string \<Rightarrow> bool" where
  "can_write files p \<longleftrightarrow>
     p \<noteq> [] \<and> \<not> suffix ''/'' p \<and> files p \<noteq> Some Dir \<and>
     (list_all (\<lambda>c. c = CHR ''/'') (dirname p) \<or> files (dirname p) = Some Dir)"

text \<open>
  \<open>save_data\<close>, lines 73 to 83: \<open>os.makedirs(OUTPUT_DIR, exist_ok=True)\<close>
  fails where a file has the directory's name, \<open>to_csv\<close> (an \<open>OSError\<close>)
  where no file can be opened at the path; otherwise the file is written over
  whatever was there.
\<close>

definition save_data ::
  "('d dataframe \<Rightarrow> 'f) \<Rightarrow> 'd dataframe \<Rightarrow> string \<Rightarrow> 'f world \<Rightarrow> exn option \<times> 'f world"
where
  "save_data to_csv df filename w =
     (case fs w OUTPUT_DIR of
        Some (File _) \<Rightarrow> (Some OSError, w)
      | _ \<Rightarrow>
          let w1 = w\<lparr>fs := (fs w)(OUTPUT_DIR \<mapsto> Dir)\<rparr>;
              file_path = path_join OUTPUT_DIR filename
          in if can_write (fs w1) file_path
             then (None, w1\<lparr>fs := (fs w1)(file_path \<mapsto> File (to_csv df)),
                            log := log w1 @ [Saved file_path]\<rparr>)
             else (Some OSError, w1))"

text \<open>
  The loop of lines 121 to 125: \<open>os.path.exists\<close> holds of files and of
  directories, \<open>os.remove\<close> deletes a file and fails on a directory.
\<close>

fun cleanup :: "string list \<Rightarrow> 'f world \<Rightarrow> exn option \<times> 'f world" where
  "cleanup [] w = (None, w)"
| "cleanup (series_name # rest) w =
     (let file_path = path_join OUTPUT_DIR (series_name @ ''.csv'')
      in case fs w file_path of
           None \<Rightarrow> cleanup rest w
         | Some Dir \<Rightarrow> (Some OSError, w)
         | Some (File _) \<Rightarrow>
             cleanup rest (w\<lparr>fs := (fs w)(file_path := None),
                              log := log w @ [Deleted file_path]\<rparr>))"

section \<open>The dispatcher and the pipeline\<close>

text \<open>
  The loop of lines 96 to 105 over the futures in the order in which they
  complete.  \<open>result\<close> is \<open>future.result()\<close> of the future of a series: the
  frame that \<open>get_data\<close> returned or the exception that it raised.
\<close>

fun collect ::
  "(string \<times> string \<Rightarrow> exn + cell dataframe) \<Rightarrow> (string \<times> string) list
     \<Rightarrow> cell dataframe list \<times> string list \<times> 'f world
     \<Rightarrow> cell dataframe list \<times> string list \<times> 'f world"
where
  "collect result [] st = st"
| "collect result ((series_id, series_name) # futures) (dfs, successful_series, w) =
     (case result (series_id, series_name) of
        Inr df \<Rightarrow>
          if \<not> df_empty df
          then collect result futures
                 (dfs @ [df], successful_series @ [series_name],
                  w\<lparr>log := log w @ [Done series_name]\<rparr>)
          else collect result futures (dfs, successful_series, w)
      | Inl e \<Rightarrow>
          collect result futures
            (dfs, successful_series, w\<lparr>log := log w @ [Failed series_name e]\<rparr>))"

text \<open>
  Lines 107 to 125 of \<open>main\<close>: merge, write, clean up.  The first component of
  the result is the exception that ends the run, if any.
\<close>

definition finish ::
  "(cell list \<Rightarrow> 'd list option) \<Rightarrow> (('d::linorder) dataframe \<Rightarrow> 'f)
     \<Rightarrow> cell dataframe list \<times> string list \<times> 'f world \<Rightarrow> exn option \<times> 'f world"
where
  "finish convert to_csv st =
     (case st of (dfs, successful_series, w) \<Rightarrow>
        (case merge convert dfs of
           Inl e \<Rightarrow> (Some e, w)
         | Inr merged_df \<Rightarrow>
             (case save_data to_csv merged_df ''economic_indicators.csv'' w of
                (Some e, w') \<Rightarrow> (Some e, w')
              | (None, w') \<Rightarrow> cleanup successful_series w')))"

text \<open>
  \<open>main\<close>, lines 85 to 125.  Every series of \<open>SERIES_IDS\<close> is submitted;
  \<open>completion_order\<close> is the order in which \<open>as_completed\<close> hands the
  futures back, a permutation of \<open>SERIES_IDS\<close>.
\<close>

definition main ::
  "(string \<Rightarrow> bool) \<Rightarrow> (cell list \<Rightarrow> 'd list option) \<Rightarrow> (('d::linorder) dataframe \<Rightarrow> 'f)
     \<Rightarrow> (string \<Rightarrow> response) \<Rightarrow> (string \<times> string) list \<Rightarrow> 'f world \<Rightarrow> exn option \<times> 'f world"
where
  "main numeric convert to_csv http completion_order w =
     finish convert to_csv
       (collect (\<lambda>(series_id, series_name). get_data numeric http series_id series_name API_KEY)
          completion_order ([], [], w))"

section \<open>Notions used in the statements\<close>

text \<open>The dates of the observation records of a response, in document order.\<close>

definition response_dates :: "response \<Rightarrow> cell list" where
  "response_dates resp =
     (case resp of
        Request_failed e \<Rightarrow> []
      | Json data \<Rightarrow>
          (case data ''observations'' of
             None \<Rightarrow> []
           | Some records \<Rightarrow> map (\<lambda>r. map_of r ''date'') records))"

text \<open>
  The field whose cells line 62 tests for a series.  After the renaming of
  line 59 the column named \<open>series_name\<close> is the field \<open>value\<close> or, in a
  response none of whose records has that field, a field that is itself named
  like the series.
\<close>

definition tested_field :: "string \<Rightarrow> observation list \<Rightarrow> string" where
  "tested_field series_name records =
     (if ''value'' \<in> set (concat (map (map fst) records)) then ''value'' else series_name)"

text \<open>
  The observation records of a response whose tested field holds a string that
  parses as a number, in document order.  A response without records has none.
\<close>

definition numeric_records :: "(string \<Rightarrow> bool) \<Rightarrow> string \<Rightarrow> response \<Rightarrow> observation list" where
  "numeric_records numeric series_name resp =
     (case resp of
        Request_failed e \<Rightarrow> []
      | Json data \<Rightarrow>
          (case data ''observations'' of
             None \<Rightarrow> []
           | Some records \<Rightarrow>
               filter (\<lambda>r. case map_of r (tested_field series_name records) of
                             None \<Rightarrow> False
                           | Some s \<Rightarrow> numeric s) records))"

text \<open>
  A conversion that works label by label, the same for a label wherever it
  stands: \<open>timestamp\<close> converts one label, \<open>None\<close> where it cannot.
\<close>

definition labelwise :: "(cell \<Rightarrow> 'd option) \<Rightarrow> cell list \<Rightarrow> 'd list option" where
  "labelwise timestamp ls = those (map timestamp ls)"

text \<open>A frame whose columns all have the length of its index.\<close>

definition well_shaped :: "'l dataframe \<Rightarrow> bool" where
  "well_shaped df \<longleftrightarrow> list_all (\<lambda>(n, c). length c = length (index df)) (columns df)"

text \<open>
  The cell of a frame in the column of a name at the row of a label: \<open>None\<close>
  where the frame has no such column or row, \<open>Some None\<close> for an empty cell.
\<close>

definition cell_at :: "'l dataframe \<Rightarrow> string \<Rightarrow> 'l \<Rightarrow> cell option" where
  "cell_at df n l =
     (case map_of (columns df) n of
        None \<Rightarrow> None
      | Some c \<Rightarrow> map_of (zip (index df) c) l)"

text \<open>
  A series whose fetch completed with a non-empty table: the condition under
  which the loop of \<open>main\<close> records the table and the name.
\<close>

definition completed_nonempty :: "(string \<times> string \<Rightarrow> exn + cell dataframe) \<Rightarrow> string \<times> string \<Rightarrow> bool" where
  "completed_nonempty result s = (case result s of Inl e \<Rightarrow> False | Inr df \<Rightarrow> \<not> df_empty df)"

text \<open>The path of the intermediate file of a series, as line 122 builds it.\<close>

definition series_file :: "string \<Rightarrow> string" where
  "series_file series_name = path_join OUTPUT_DIR (series_name @ ''.csv'')"

text \<open>The field names of the observation records of a response.\<close>

definition response_fields :: "response \<Rightarrow> string list" where
  "response_fields resp =
     (case resp of
        Request_failed e \<Rightarrow> []
      | Json data \<Rightarrow>
          (case data ''observations'' of
             None \<Rightarrow> []
           | Some records \<Rightarrow> concat (map (map fst) records)))"

section \<open>Properties of the series fetcher\<close>

lemma set_first_seen [simp]: "set (first_seen xs) = set xs"
  by (simp add: first_seen_def)

lemma distinct_first_seen [simp]: "distinct (first_seen xs)"
  by (simp add: first_seen_def)

lemma filter_eq_distinct:
  "distinct xs \<Longrightarrow> filter (\<lambda>x. x = a) xs = (if a \<in> set xs then [a] else [])"
  by (induction xs) auto

lemma names_DataFrame:
  "names (DataFrame records) = first_seen (concat (map (map fst) records))"
  by (simp add: names_def DataFrame_def comp_def)

lemma set_names_DataFrame: "set (names (DataFrame records)) = (\<Union>r\<in>set records. fst ` set r)"
  by (simp add: names_DataFrame)

lemma distinct_names_DataFrame: "distinct (names (DataFrame records))"
  by (simp add: names_DataFrame)

lemma labelled_rename_DataFrame:
  "labelled key (rename_columns old new (DataFrame records)) =
     map (\<lambda>k. map (\<lambda>r. map_of r k) records)
       (filter (\<lambda>k. (if k = old then new else k) = key) (names (DataFrame records)))"
  by (simp add: labelled_def rename_columns_def DataFrame_def names_def first_seen_def
      filter_map comp_def)

lemma labelled_set_index_same:
  "set_index key df = Inr df' \<Longrightarrow> labelled key df' = []"
  by (auto simp: set_index_def labelled_def filter_empty_conv split: list.splits)

lemma index_set_index:
  "set_index key df = Inr df' \<Longrightarrow> \<exists>more. labelled key df = index df' # more"
  by (auto simp: set_index_def split: list.splits)

lemma labelled_set_index_other:
  "set_index key df = Inr df' \<Longrightarrow> key' \<noteq> key \<Longrightarrow> labelled key' df' = labelled key' df"
  apply (auto simp: set_index_def labelled_def split: list.splits)
  apply (rule arg_cong[where f="map snd"])
  apply (rule filter_cong) apply auto
  done

lemma get_data_Inr_cases:
  assumes "get_data numeric http series_id series_name api_key = Inr df"
  shows "df = empty_frame \<or>
    (\<exists>data records df0 col. http (url series_id api_key) = Json data \<and> data ''observations'' = Some records \<and>
       set_index ''date'' (rename_columns ''value'' series_name (DataFrame records)) = Inr df0 \<and>
       labelled series_name df0 = [col] \<and>
       df = drop_realtime (mask_rows (notna_numeric numeric col) df0))"
  using assms
  by (auto simp: get_data_def split: response.splits option.splits sum.splits list.splits)


lemma keep_Cons [simp]: "keep (b # bs) (x # xs) = (if b then x # keep bs xs else keep bs xs)"
  by (simp add: keep_def)

lemma keep_Nil [simp]: "keep [] xs = []" "keep bs [] = []"
  by (simp_all add: keep_def)

lemma keep_map_filter:
  "keep (map p xs) (map f xs) = map f (filter p xs)"
  by (induction xs) auto

lemma set_keep_subset: "set (keep bs xs) \<subseteq> set xs"
  by (auto simp: keep_def dest: set_zip_rightD)

lemma subseq_keep: "subseq (keep bs xs) xs"
proof (induction xs arbitrary: bs)
  case Nil
  show ?case by simp
next
  case (Cons x xs)
  show ?case
  proof (cases bs)
    case Nil
    then show ?thesis by simp
  next
    case (Cons b bs')
    with Cons.IH [of bs'] show ?thesis by auto
  qed
qed

lemma distinct_keep: "distinct xs \<Longrightarrow> distinct (keep bs xs)"
proof (induction xs arbitrary: bs)
  case Nil
  show ?case by simp
next
  case (Cons x xs)
  show ?case
  proof (cases bs)
    case Nil
    then show ?thesis by simp
  next
    case (Cons b bs')
    with Cons.IH [of bs'] Cons.prems set_keep_subset [of bs' xs] show ?thesis by auto
  qed
qed

lemma index_drop_realtime [simp]: "index (drop_realtime df) = index df"
  by (simp add: drop_realtime_def)

lemma index_mask_rows [simp]: "index (mask_rows bs df) = keep bs (index df)"
  by (simp add: mask_rows_def)

lemma get_data_index:
  assumes "get_data numeric http series_id series_name api_key = Inr df"
    and "http (url series_id api_key) = Json data" and "data ''observations'' = Some records"
  shows "\<exists>bs. index df = keep bs (map (\<lambda>r. map_of r ''date'') records)"
proof -
  let ?R = "rename_columns ''value'' series_name (DataFrame records)"
  from assms obtain df0 col where
    si: "set_index ''date'' ?R = Inr df0"
    and lab: "labelled series_name df0 = [col]"
    and df: "df = drop_realtime (mask_rows (notna_numeric numeric col) df0)"
    by (auto simp: get_data_def split: sum.splits list.splits)
  have ne: "series_name \<noteq> ''date''"
    using labelled_set_index_same[OF si] lab by auto
  obtain more where "labelled ''date'' ?R = index df0 # more"
    using index_set_index[OF si] ..
  moreover have "filter (\<lambda>k. (if k = ''value'' then series_name else k) = ''date'') (names (DataFrame records))
      = filter (\<lambda>k. k = ''date'') (names (DataFrame records))"
    using ne by (intro filter_cong) auto
  ultimately have "index df0 = map (\<lambda>r. map_of r ''date'') records"
    by (auto simp: labelled_rename_DataFrame filter_eq_distinct distinct_names_DataFrame
        split: if_splits)
  with df show ?thesis by auto
qed


lemma labelled_drop_realtime:
  "\<not> prefix ''realtime'' key \<Longrightarrow> labelled key (drop_realtime df) = labelled key df"
proof -
  assume a: "\<not> prefix ''realtime'' key"
  have "filter (\<lambda>(n, c). n = key) (filter (\<lambda>(n, c). \<not> prefix ''realtime'' n) (columns df))
      = filter (\<lambda>(n, c). n = key) (columns df)"
    unfolding filter_filter using a by (intro filter_cong) auto
  then show ?thesis by (simp add: labelled_def drop_realtime_def)
qed

lemma labelled_mask_rows:
  "labelled key (mask_rows bs df) = map (keep bs) (labelled key df)"
  by (induction "columns df" arbitrary: df)
     (auto simp: labelled_def mask_rows_def filter_map comp_def case_prod_unfold)

text \<open>
  Claim C3.  For a response whose records all carry a date and a value (and no
  field named like the series, whose name does not begin with \<open>realtime\<close>),
  the Series Table holds exactly the records whose value parses as a number,
  in order, each with its date as the row key and its value in the series'
  column, both unchanged; the records with a non-numeric value are left out.
\<close>

theorem get_data_numeric_rows:
  assumes resp: "http (url series_id api_key) = Json data"
    and obs: "data ''observations'' = Some records"
    and ne: "records \<noteq> []"
    and fields: "\<forall>r\<in>set records. ''date'' \<in> fst ` set r \<and> ''value'' \<in> fst ` set r"
    and fresh: "\<forall>r\<in>set records. series_name \<notin> fst ` set r - {''value''}"
    and nrt: "\<not> prefix ''realtime'' series_name"
  shows "\<exists>df. get_data numeric http series_id series_name api_key = Inr df
    \<and> index df = map (\<lambda>r. map_of r ''date'')
         (filter (\<lambda>r. case map_of r ''value'' of None \<Rightarrow> False | Some s \<Rightarrow> numeric s) records)
    \<and> labelled series_name df = [map (\<lambda>r. map_of r ''value'')
         (filter (\<lambda>r. case map_of r ''value'' of None \<Rightarrow> False | Some s \<Rightarrow> numeric s) records)]"
proof -
  let ?R = "rename_columns ''value'' series_name (DataFrame records)"
  let ?ren = "\<lambda>k. if k = ''value'' then series_name else k"
  let ?dates = "map (\<lambda>r. map_of r ''date'') records"
  let ?vals = "map (\<lambda>r. map_of r ''value'') records"
  let ?p = "\<lambda>r. case map_of r ''value'' of None \<Rightarrow> False | Some s \<Rightarrow> numeric s"
  from ne obtain r0 where r0: "r0 \<in> set records" by (cases records) auto
  have kd: "''date'' \<in> set (names (DataFrame records))" and kv: "''value'' \<in> set (names (DataFrame records))"
    using fields r0 by (auto simp: set_names_DataFrame)
  have fr: "series_name \<notin> set (names (DataFrame records)) - {''value''}"
    using fresh by (auto simp: set_names_DataFrame)
  have nd: "series_name \<noteq> ''date''"
    using fr kd by auto
  have "filter (\<lambda>k. ?ren k = ''date'') (names (DataFrame records)) = filter (\<lambda>k. k = ''date'') (names (DataFrame records))"
    using nd by (intro filter_cong) auto
  then have ld: "labelled ''date'' ?R = [?dates]"
    using kd by (simp add: labelled_rename_DataFrame filter_eq_distinct distinct_names_DataFrame)
  define df0 where "df0 = \<lparr>index = ?dates, columns = filter (\<lambda>(n, c). n \<noteq> ''date'') (columns ?R)\<rparr>"
  have si: "set_index ''date'' ?R = Inr df0"
    using ld by (simp add: set_index_def df0_def)
  have "filter (\<lambda>k. ?ren k = series_name) (names (DataFrame records)) = filter (\<lambda>k. k = ''value'') (names (DataFrame records))"
    using fr by (intro filter_cong) auto
  then have "labelled series_name ?R = [?vals]"
    using kv by (simp add: labelled_rename_DataFrame filter_eq_distinct distinct_names_DataFrame)
  then have lv: "labelled series_name df0 = [?vals]"
    using labelled_set_index_other [OF si nd] by simp
  define df where "df = drop_realtime (mask_rows (notna_numeric numeric ?vals) df0)"
  have gd: "get_data numeric http series_id series_name api_key = Inr df"
    using resp obs si lv by (simp add: get_data_def df_def)
  have m: "notna_numeric numeric ?vals = map ?p records"
    by (simp add: notna_numeric_def)
  have "index df = map (\<lambda>r. map_of r ''date'') (filter ?p records)"
    by (simp add: df_def df0_def m keep_map_filter)
  moreover have "labelled series_name df = [map (\<lambda>r. map_of r ''value'') (filter ?p records)]"
    using nrt lv by (simp add: df_def labelled_drop_realtime labelled_mask_rows m keep_map_filter)
  ultimately show ?thesis using gd by blast
qed


theorem get_data_numeric_rows_witness:
  "\<exists>df. get_data (\<lambda>s. s \<noteq> ''.'')
          (\<lambda>u. Json [''observations'' \<mapsto>
             [[(''realtime_start'', ''2024-09-01''), (''realtime_end'', ''2024-09-01''),
               (''date'', ''2024-06-01''), (''value'', ''4.1'')],
              [(''realtime_start'', ''2024-09-01''), (''realtime_end'', ''2024-09-01''),
               (''date'', ''2024-07-01''), (''value'', ''.'')],
              [(''realtime_start'', ''2024-09-01''), (''realtime_end'', ''2024-09-01''),
               (''date'', ''2024-08-01''), (''value'', ''4.2'')]]])
          ''UNRATE'' ''unemployment Ratio'' API_KEY = Inr df
     \<and> index df = [Some ''2024-06-01'', Some ''2024-08-01'']
     \<and> labelled ''unemployment Ratio'' df = [[Some ''4.1'', Some ''4.2'']]"
proof -
  let ?records = "[[(''realtime_start'', ''2024-09-01''), (''realtime_end'', ''2024-09-01''),
               (''date'', ''2024-06-01''), (''value'', ''4.1'')],
              [(''realtime_start'', ''2024-09-01''), (''realtime_end'', ''2024-09-01''),
               (''date'', ''2024-07-01''), (''value'', ''.'')],
              [(''realtime_start'', ''2024-09-01''), (''realtime_end'', ''2024-09-01''),
               (''date'', ''2024-08-01''), (''value'', ''4.2'')]]"
  let ?data = "[''observations'' \<mapsto> ?records]"
  have 1: "(\<lambda>u. Json ?data) (url ''UNRATE'' API_KEY) = Json ?data" by simp
  have 2: "?data ''observations'' = Some ?records" by simp
  have 3: "?records \<noteq> []" by simp
  have 4: "\<forall>r\<in>set ?records. ''date'' \<in> fst ` set r \<and> ''value'' \<in> fst ` set r" by simp
  have 5: "\<forall>r\<in>set ?records. ''unemployment Ratio'' \<notin> fst ` set r - {''value''}" by simp
  have 6: "\<not> prefix ''realtime'' ''unemployment Ratio''" by simp
  from get_data_numeric_rows [where http = "\<lambda>u. Json ?data" and series_id = "''UNRATE''"
      and api_key = API_KEY and numeric = "\<lambda>s. s \<noteq> ''.''", OF 1 2 3 4 5 6]
  show ?thesis by simp
qed

text \<open>
  Claim C2 as amended.  The Series Fetcher returns a table or raises an
  exception that is no \<open>RequestException\<close>.  A failure that the
  \<open>requests\<close> library reports (an HTTP error status, a transport failure, a
  body that does not decode) gives the empty table; a decoded body without
  the \<open>observations\<close> field raises \<open>KeyError\<close> to the caller.
\<close>

theorem get_data_failures:
  "(http (url series_id api_key) = Request_failed e \<longrightarrow>
      get_data numeric http series_id series_name api_key = Inr empty_frame)
   \<and> get_data numeric http series_id series_name api_key \<noteq> Inl (RequestException e')
   \<and> (http (url series_id api_key) = Json data \<and> data ''observations'' = None \<longrightarrow>
      get_data numeric http series_id series_name api_key = Inl KeyError)"
  by (auto simp: get_data_def set_index_def
      split: response.splits option.splits sum.splits list.splits)

theorem get_data_failures_witness:
  "get_data (\<lambda>s. s \<noteq> ''.'') (\<lambda>u. Request_failed HTTPError) ''UNRATE'' ''unemployment Ratio'' API_KEY
     = Inr empty_frame
   \<and> get_data (\<lambda>s. s \<noteq> ''.'') (\<lambda>u. Request_failed HTTPError) ''UNRATE'' ''unemployment Ratio'' API_KEY
     \<noteq> Inl (RequestException HTTPError)
   \<and> get_data (\<lambda>s. s \<noteq> ''.'') (\<lambda>u. Json Map.empty) ''UNRATE'' ''unemployment Ratio'' API_KEY
     = Inl KeyError"
  using get_data_failures [of "\<lambda>u. Request_failed HTTPError" "''UNRATE''" API_KEY HTTPError
      "\<lambda>s. s \<noteq> ''.''" "''unemployment Ratio''" HTTPError]
    get_data_failures [of "\<lambda>u. Json Map.empty" "''UNRATE''" API_KEY HTTPError
      "\<lambda>s. s \<noteq> ''.''" "''unemployment Ratio''" HTTPError Map.empty]
  by simp

text \<open>
  The claim as the specification states it fails: for a decoded body without
  the \<open>observations\<close> field the lookup raises \<open>KeyError\<close>, which the
  handler for \<open>RequestException\<close> does not catch.
\<close>

theorem get_data_missing_observations:
  "get_data (\<lambda>s. s \<noteq> ''.'') (\<lambda>u. Json [''error_message'' \<mapsto> []]) ''UNRATE'' ''unemployment Ratio'' API_KEY
     = Inl KeyError"
  by (simp add: get_data_def)

lemma tested_column:
  assumes "labelled series_name (rename_columns ''value'' series_name (DataFrame records)) = [col]"
  shows "col = map (\<lambda>r. map_of r (tested_field series_name records)) records"
proof -
  let ?keys = "names (DataFrame records)"
  let ?ks = "filter (\<lambda>k. (if k = ''value'' then series_name else k) = series_name) ?keys"
  from assms have "map (\<lambda>k. map (\<lambda>r. map_of r k) records) ?ks = [col]"
    by (simp only: labelled_rename_DataFrame)
  then obtain k0 where ks: "?ks = [k0]" and col: "col = map (\<lambda>r. map_of r k0) records"
    by (auto simp: map_eq_Cons_conv)
  have "k0 \<in> set ?ks" by (simp only: ks list.set_intros)
  then have k0: "k0 \<in> set ?keys" "(if k0 = ''value'' then series_name else k0) = series_name"
    by simp_all
  have "k0 = tested_field series_name records"
  proof (cases "''value'' \<in> set ?keys")
    case True
    then have "''value'' \<in> set ?ks" by simp
    then have "''value'' \<in> set [k0]" by (simp only: ks)
    then have "k0 = ''value''" by simp
    with True show ?thesis by (simp add: tested_field_def names_DataFrame)
  next
    case False
    with k0(1) have "k0 \<noteq> ''value''" by auto
    with k0(2) have "k0 = series_name" by simp
    with False show ?thesis by (simp add: tested_field_def names_DataFrame)
  qed
  with col show ?thesis by simp
qed

lemma get_data_rows:
  assumes "get_data numeric http series_id series_name api_key = Inr df"
    and "http (url series_id api_key) = Json data" and "data ''observations'' = Some records"
  shows "index df = map (\<lambda>r. map_of r ''date'')
           (filter (\<lambda>r. case map_of r (tested_field series_name records) of
                          None \<Rightarrow> False | Some s \<Rightarrow> numeric s) records)"
proof -
  let ?R = "rename_columns ''value'' series_name (DataFrame records)"
  let ?p = "\<lambda>r. case map_of r (tested_field series_name records) of
                          None \<Rightarrow> False | Some s \<Rightarrow> numeric s"
  from assms obtain df0 col where
    si: "set_index ''date'' ?R = Inr df0"
    and lab: "labelled series_name df0 = [col]"
    and df: "df = drop_realtime (mask_rows (notna_numeric numeric col) df0)"
    by (auto simp: get_data_def split: sum.splits list.splits)
  have ne: "series_name \<noteq> ''date''"
    using labelled_set_index_same[OF si] lab by auto
  obtain more where "labelled ''date'' ?R = index df0 # more"
    using index_set_index[OF si] ..
  moreover have "filter (\<lambda>k. (if k = ''value'' then series_name else k) = ''date'') (names (DataFrame records))
      = filter (\<lambda>k. k = ''date'') (names (DataFrame records))"
    using ne by (intro filter_cong) auto
  ultimately have idx: "index df0 = map (\<lambda>r. map_of r ''date'') records"
    by (auto simp: labelled_rename_DataFrame filter_eq_distinct distinct_names_DataFrame
        split: if_splits)
  from lab have "labelled series_name ?R = [col]"
    by (simp only: labelled_set_index_other [OF si ne])
  then have "col = map (\<lambda>r. map_of r (tested_field series_name records)) records"
    by (rule tested_column)
  then have "notna_numeric numeric col = map ?p records"
    by (simp add: notna_numeric_def)
  then have "index df = keep (map ?p records) (map (\<lambda>r. map_of r ''date'') records)"
    by (simp add: df idx)
  then show ?thesis
    by (simp only: keep_map_filter)
qed

lemma count_list_map:
  "count_list (map f xs) y = length (filter (\<lambda>x. f x = y) xs)"
  by (induction xs) auto

text \<open>
  Claim C7 as amended.  The row keys of the Series Table are exactly the dates
  of the observation records whose tested value parses as a number, one row
  for each such record, in document order: the fetcher removes no duplicate,
  and a date occurs as a row key as often as it occurs among these records.
  So the table's dates are distinct whenever the dates of the response's
  records are.
\<close>

theorem get_data_dates:
  assumes "get_data numeric http series_id series_name api_key = Inr df"
  shows "index df = map (\<lambda>r. map_of r ''date'')
                      (numeric_records numeric series_name (http (url series_id api_key)))
    \<and> (\<forall>d. count_list (index df) d =
           length (filter (\<lambda>r. map_of r ''date'' = d)
                     (numeric_records numeric series_name (http (url series_id api_key)))))
    \<and> (distinct (response_dates (http (url series_id api_key))) \<longrightarrow> distinct (index df))"
proof -
  let ?rs = "numeric_records numeric series_name (http (url series_id api_key))"
  have 1: "index df = map (\<lambda>r. map_of r ''date'') ?rs"
  proof (cases "http (url series_id api_key)")
    case (Request_failed e)
    with assms have "df = empty_frame" by (simp add: get_data_def)
    then show ?thesis by (simp add: empty_frame_def Request_failed numeric_records_def)
  next
    case (Json data)
    with assms obtain records where obs: "data ''observations'' = Some records"
      by (auto simp: get_data_def split: option.splits)
    from get_data_rows [OF assms Json obs] show ?thesis
      by (simp add: Json obs numeric_records_def)
  qed
  have 2: "count_list (index df) d = length (filter (\<lambda>r. map_of r ''date'' = d) ?rs)" for d
    unfolding 1 by (rule count_list_map)
  have 3: "distinct (index df)" if "distinct (response_dates (http (url series_id api_key)))"
  proof (cases "http (url series_id api_key)")
    case (Request_failed e)
    with assms have "df = empty_frame" by (simp add: get_data_def)
    then show ?thesis by (simp add: empty_frame_def)
  next
    case (Json data)
    with assms obtain records where obs: "data ''observations'' = Some records"
      by (auto simp: get_data_def split: option.splits)
    from get_data_index [OF assms Json obs] obtain bs
      where "index df = keep bs (map (\<lambda>r. map_of r ''date'') records)" ..
    with that show ?thesis
      by (simp add: Json obs response_dates_def distinct_keep)
  qed
  from 1 2 3 show ?thesis by blast
qed

theorem get_data_dates_witness:
  "map (\<lambda>r. map_of r ''date'')
     (numeric_records (\<lambda>s. s \<noteq> ''.'') ''unemployment Ratio''
        (Json [''observations'' \<mapsto>
          [[(''date'', ''2024-06-01''), (''value'', ''4.1'')],
           [(''date'', ''2024-07-01''), (''value'', ''.'')],
           [(''date'', ''2024-08-01''), (''value'', ''4.2'')]]]))
     = [Some ''2024-06-01'', Some ''2024-08-01'']
   \<and> distinct [Some ''2024-06-01'', Some ''2024-08-01'']"
proof -
  let ?http = "\<lambda>u::string. Json [''observations'' \<mapsto>
        [[(''date'', ''2024-06-01''), (''value'', ''4.1'')],
         [(''date'', ''2024-07-01''), (''value'', ''.'')],
         [(''date'', ''2024-08-01''), (''value'', ''4.2'')]]]"
  have 1: "get_data (\<lambda>s. s \<noteq> ''.'') ?http ''UNRATE'' ''unemployment Ratio'' API_KEY
      = Inr \<lparr>index = [Some ''2024-06-01'', Some ''2024-08-01''],
             columns = [(''unemployment Ratio'', [Some ''4.1'', Some ''4.2''])]\<rparr>"
    by (simp add: get_data_def DataFrame_def first_seen_def rename_columns_def set_index_def
        labelled_def notna_numeric_def mask_rows_def drop_realtime_def)
  have 2: "distinct (response_dates (?http (url ''UNRATE'' API_KEY)))"
    by (simp add: response_dates_def)
  from get_data_dates [OF 1, THEN conjunct1] get_data_dates [OF 1, THEN conjunct2, THEN conjunct2] 2
  show ?thesis by simp
qed

text \<open>
  The claim as the specification states it fails: two records with one date
  give a table with two rows under that date.
\<close>

theorem get_data_repeated_date:
  "get_data (\<lambda>s. s \<noteq> ''.'')
     (\<lambda>u. Json [''observations'' \<mapsto>
        [[(''date'', ''2024-06-01''), (''value'', ''4.1'')],
         [(''date'', ''2024-06-01''), (''value'', ''4.2'')]]])
     ''UNRATE'' ''unemployment Ratio'' API_KEY
   = Inr \<lparr>index = [Some ''2024-06-01'', Some ''2024-06-01''],
          columns = [(''unemployment Ratio'', [Some ''4.1'', Some ''4.2''])]\<rparr>"
  by (simp add: get_data_def DataFrame_def first_seen_def rename_columns_def set_index_def
      labelled_def notna_numeric_def mask_rows_def drop_realtime_def)

section \<open>Columns of the merged table\<close>

lemma names_drop_realtime:
  "names (drop_realtime df) = filter (\<lambda>n. \<not> prefix ''realtime'' n) (names df)"
  by (simp add: names_def drop_realtime_def filter_map comp_def case_prod_unfold)

lemma names_empty_frame [simp]: "names empty_frame = []"
  by (simp add: names_def empty_frame_def)

lemma names_mask_rows [simp]: "names (mask_rows bs df) = names df"
  by (simp add: names_def mask_rows_def comp_def case_prod_unfold)

lemma names_sort_index [simp]: "names (sort_index df) = names df"
  by (simp add: names_def sort_index_def comp_def case_prod_unfold)

lemma index_sort_index [simp]: "index (sort_index df) = sort (index df)"
  by (simp add: sort_index_def)

lemma names_select_columns:
  "names (select_columns labels df) = concat (map (\<lambda>l. filter (\<lambda>n. n = l) (names df)) labels)"
  by (simp add: names_def select_columns_def map_concat comp_def filter_map case_prod_unfold)

lemma index_select_columns [simp]: "index (select_columns labels df) = index df"
  by (simp add: select_columns_def)

lemma set_names_select_columns:
  "set (names (select_columns labels df)) = set labels \<inter> set (names df)"
  by (auto simp: names_select_columns)

lemma merge_Inr_cases:
  assumes "merge convert dfs = Inr m"
  obtains df1 df2 where "pd_concat dfs = Inr df1" "to_datetime convert df1 = Inr df2"
    "m = select_columns (columns_order (sort_index (drop_realtime df2))) (sort_index (drop_realtime df2))"
  using assms by (auto simp: merge_def Let_def split: sum.splits)

lemma names_merge:
  assumes "merge convert dfs = Inr m"
  shows "set (names m) \<subseteq> {n. \<not> prefix ''realtime'' n} \<inter> set (map snd SERIES_IDS)"
  using assms
  by (elim merge_Inr_cases) (auto simp: set_names_select_columns columns_order_def names_drop_realtime)

text \<open>
  Claim C4.  No column of a table that the Series Fetcher returns has a name
  that begins with \<open>realtime\<close>, and neither has a column of the Merged Table.
\<close>

theorem no_realtime_columns:
  "(get_data numeric http series_id series_name api_key = Inr df \<longrightarrow>
      (\<forall>n\<in>set (names df). \<not> prefix ''realtime'' n))
   \<and> (merge convert dfs = Inr merged_df \<longrightarrow>
      (\<forall>n\<in>set (names merged_df). \<not> prefix ''realtime'' n))"
proof (intro conjI impI)
  assume "get_data numeric http series_id series_name api_key = Inr df"
  from get_data_Inr_cases [OF this]
  show "\<forall>n\<in>set (names df). \<not> prefix ''realtime'' n"
    by (auto simp: names_drop_realtime)
next
  assume "merge convert dfs = Inr merged_df"
  from names_merge [OF this]
  show "\<forall>n\<in>set (names merged_df). \<not> prefix ''realtime'' n"
    by auto
qed

theorem no_realtime_columns_witness:
  "list_all (\<lambda>n. \<not> prefix ''realtime'' n)
     (names \<lparr>index = [Some ''2024-06-01''], columns = [(''unemployment Ratio'', [Some ''4.1''])]\<rparr>)
   \<and> list_all (\<lambda>n. \<not> prefix ''realtime'' n)
     (names \<lparr>index = [''2024-06-01''], columns = [(''unemployment Ratio'', [Some ''4.1''])]\<rparr>)"
proof -
  let ?http = "\<lambda>u::string. Json [''observations'' \<mapsto>
        [[(''realtime_start'', ''2024-09-01''), (''realtime_end'', ''2024-09-01''),
          (''date'', ''2024-06-01''), (''value'', ''4.1'')]]]"
  let ?df = "\<lparr>index = [Some ''2024-06-01''], columns = [(''unemployment Ratio'', [Some ''4.1''])]\<rparr>"
  let ?m = "\<lparr>index = [''2024-06-01''], columns = [(''unemployment Ratio'', [Some ''4.1''])]\<rparr>"
  have 1: "get_data (\<lambda>s. s \<noteq> ''.'') ?http ''UNRATE'' ''unemployment Ratio'' API_KEY = Inr ?df"
    by (simp add: get_data_def DataFrame_def first_seen_def rename_columns_def set_index_def
        labelled_def notna_numeric_def mask_rows_def drop_realtime_def)
  have 2: "merge (labelwise (\<lambda>c. c)) [?df] = Inr ?m"
    by (simp add: merge_def pd_concat_def to_datetime_def labelwise_def sort_index_def drop_realtime_def
        select_columns_def columns_order_def SERIES_IDS_def names_def)
  from no_realtime_columns [of "\<lambda>s. s \<noteq> ''.''" ?http "''UNRATE''" "''unemployment Ratio''" API_KEY
      ?df "labelwise (\<lambda>c. c)" "[?df]" ?m] 1 2
  show ?thesis by (simp add: list_all_iff)
qed

lemma names_pd_concat:
  "pd_concat dfs = Inr df1 \<Longrightarrow> names df1 = concat (map names dfs)"
  by (auto simp: pd_concat_def names_def [abs_def] Let_def map_concat comp_def case_prod_unfold
      split: list.splits if_splits)

lemma names_to_datetime:
  "to_datetime convert df1 = Inr df2 \<Longrightarrow> names df2 = names df1"
  by (auto simp: to_datetime_def names_def split: option.splits)

lemma configured_not_realtime':
  "list_all (\<lambda>col. \<not> prefix ''realtime'' col) (map snd SERIES_IDS)"
  by (simp add: SERIES_IDS_def)

lemma configured_not_realtime:
  "(a, col) \<in> set SERIES_IDS \<Longrightarrow> \<not> prefix ''realtime'' col"
  using configured_not_realtime' by (auto simp: list_all_iff)

lemma concat_map_singleton: "concat (map (\<lambda>x. [x]) xs) = xs"
  by (induction xs) auto

lemma distinct_configured: "distinct (map snd SERIES_IDS)"
  by (simp add: SERIES_IDS_def)

lemma filter_eq_not_realtime:
  "\<not> prefix ''realtime'' col \<Longrightarrow>
     filter (\<lambda>n. n = col) (filter (\<lambda>n. \<not> prefix ''realtime'' n) xs) = filter (\<lambda>n. n = col) xs"
  by (induction xs) auto

lemma names_merge_eq:
  assumes "merge convert dfs = Inr m"
  shows "names m = concat (map (\<lambda>col. filter (\<lambda>n. n = col) (concat (map names dfs)))
                     (filter (\<lambda>col. col \<in> (\<Union>df\<in>set dfs. set (names df))) (map snd SERIES_IDS)))"
proof -
  from assms obtain df1 df2 where c: "pd_concat dfs = Inr df1" and t: "to_datetime convert df1 = Inr df2"
    and m: "m = select_columns (columns_order (sort_index (drop_realtime df2))) (sort_index (drop_realtime df2))"
    by (rule merge_Inr_cases)
  let ?all = "concat (map names dfs)"
  let ?n3 = "filter (\<lambda>n. \<not> prefix ''realtime'' n) ?all"
  let ?present = "filter (\<lambda>col. col \<in> (\<Union>df\<in>set dfs. set (names df))) (map snd SERIES_IDS)"
  have n3: "names (sort_index (drop_realtime df2)) = ?n3"
    using names_pd_concat [OF c] names_to_datetime [OF t] by (simp add: names_drop_realtime)
  have "filter (\<lambda>col. col \<in> set ?n3) (map snd SERIES_IDS) = ?present"
  proof (rule filter_cong [OF refl])
    fix col assume "col \<in> set (map snd SERIES_IDS)"
    then have "\<not> prefix ''realtime'' col" using configured_not_realtime by auto
    then show "(col \<in> set ?n3) = (col \<in> (\<Union>df\<in>set dfs. set (names df)))" by auto
  qed
  then have co: "columns_order (sort_index (drop_realtime df2)) = ?present"
    by (simp only: columns_order_def n3)
  have "map (\<lambda>col. filter (\<lambda>n. n = col) ?n3) ?present = map (\<lambda>col. filter (\<lambda>n. n = col) ?all) ?present"
  proof (rule map_cong [OF refl])
    fix col assume "col \<in> set ?present"
    then have "\<not> prefix ''realtime'' col" using configured_not_realtime by auto
    then show "filter (\<lambda>n. n = col) ?n3 = filter (\<lambda>n. n = col) ?all"
      by (rule filter_eq_not_realtime)
  qed
  then show ?thesis
    by (simp only: m names_select_columns co n3)
qed

lemma concat_map_filter_empty:
  "(\<And>x. x \<in> set xs \<Longrightarrow> \<not> P x \<Longrightarrow> f x = []) \<Longrightarrow>
     concat (map f (filter P xs)) = concat (map f xs)"
  by (induction xs) auto

lemma filter_eq_perm:
  assumes "mset xs = mset ys"
  shows "filter (\<lambda>n. n = c) xs = filter (\<lambda>n. n = c) ys"
proof -
  have r: "filter (\<lambda>n. n = c) zs = replicate (count (mset zs) c) c" for zs :: "'a list"
    by (induction zs) auto
  show ?thesis unfolding r assms ..
qed

lemma mset_concat_names:
  "mset (concat (map names ds)) = (\<Sum>df\<in>#mset ds. mset (names df))"
  by (induction ds) auto

text \<open>
  Claim C5.  The columns of the Merged Table are the configured display names
  in the configured order, each as often as the collected tables carry it as
  a column, whatever the order in which the tables were collected; so the
  column set lies within the configured names.  Where no column name repeats
  among the collected tables (each Series Table has its own series' column),
  the column list is exactly the configured list restricted to the columns
  present.
\<close>

theorem merge_column_order:
  assumes "merge convert dfs = Inr m"
  shows "set (names m) \<subseteq> set (map snd SERIES_IDS)
    \<and> names m = concat (map (\<lambda>col. filter (\<lambda>n. n = col) (concat (map names dfs))) (map snd SERIES_IDS))
    \<and> (distinct (concat (map names dfs)) \<longrightarrow>
         names m = filter (\<lambda>col. col \<in> (\<Union>df\<in>set dfs. set (names df))) (map snd SERIES_IDS))
    \<and> (\<forall>dfs' m'. mset dfs' = mset dfs \<and> merge convert dfs' = Inr m' \<longrightarrow> names m' = names m)"
proof -
  let ?present = "\<lambda>ds. filter (\<lambda>col. col \<in> (\<Union>df\<in>set ds. set (names df))) (map snd SERIES_IDS)"
  let ?general = "\<lambda>ds. concat (map (\<lambda>col. filter (\<lambda>n. n = col) (concat (map names ds))) (map snd SERIES_IDS))"
  have gen: "names m' = ?general ds" if "merge convert ds = Inr m'"
    for ds and m' :: "'a dataframe"
  proof -
    have "concat (map (\<lambda>col. filter (\<lambda>n. n = col) (concat (map names ds))) (?present ds)) = ?general ds"
      by (rule concat_map_filter_empty) (auto simp: filter_empty_conv)
    then show ?thesis
      by (simp only: names_merge_eq [OF that])
  qed
  have 1: "set (names m) \<subseteq> set (map snd SERIES_IDS)"
    using names_merge [OF assms] by blast
  have 2: "names m = ?present dfs" if d: "distinct (concat (map names dfs))"
  proof -
    have "filter (\<lambda>n. n = col) (concat (map names dfs)) = [col]" if "col \<in> set (?present dfs)" for col
      using that d by (auto simp: filter_eq_distinct)
    then have "map (\<lambda>col. filter (\<lambda>n. n = col) (concat (map names dfs))) (?present dfs)
        = map (\<lambda>col. [col]) (?present dfs)"
      by (intro map_cong) auto
    then show ?thesis
      unfolding names_merge_eq [OF assms] by (simp only: concat_map_singleton)
  qed
  have 3: "names m' = names m" if p: "mset dfs' = mset dfs" and m': "merge convert dfs' = Inr m'"
    for dfs' m'
  proof -
    from p have "mset (concat (map names dfs')) = mset (concat (map names dfs))"
      by (simp add: mset_concat_names)
    from filter_eq_perm [OF this]
    have "?general dfs' = ?general dfs" by simp
    then show ?thesis
      by (simp only: gen [OF m'] gen [OF assms])
  qed
  from gen [OF assms] 1 2 3 show ?thesis by blast
qed

theorem merge_column_order_witness:
  "names \<lparr>index = [''2024-06-01'', ''2024-07-01''],
          columns = [(''unemployment Ratio'', [Some ''4.1'', None]),
                     (''M2'', [Some ''21000'', Some ''21050''])]\<rparr>
     = [''unemployment Ratio'', ''M2'']
   \<and> filter (\<lambda>col. col \<in> {''unemployment Ratio'', ''M2''}) (map snd SERIES_IDS)
     = [''unemployment Ratio'', ''M2'']"
proof -
  let ?dfs = "[\<lparr>index = [Some ''2024-06-01'', Some ''2024-07-01''],
                columns = [(''M2'', [Some ''21000'', Some ''21050''])]\<rparr>,
               \<lparr>index = [Some ''2024-06-01''],
                columns = [(''unemployment Ratio'', [Some ''4.1''])]\<rparr>]"
  let ?m = "\<lparr>index = [''2024-06-01'', ''2024-07-01''],
          columns = [(''unemployment Ratio'', [Some ''4.1'', None]),
                     (''M2'', [Some ''21000'', Some ''21050''])]\<rparr>"
  have 1: "merge (labelwise (\<lambda>c. c)) ?dfs = Inr ?m"
    by (simp add: merge_def pd_concat_def first_seen_def reindex_def to_datetime_def labelwise_def
        sort_index_def drop_realtime_def select_columns_def columns_order_def SERIES_IDS_def
        names_def)
  have 2: "distinct (concat (map names ?dfs))"
    by (simp add: names_def)
  from merge_column_order [OF 1, THEN conjunct2, THEN conjunct2, THEN conjunct1] 2
  show ?thesis
    by (simp add: names_def)
qed

section \<open>Rows and cells of the merged table\<close>

lemma those_map:
  "those (map f xs) = (if list_all (\<lambda>x. f x \<noteq> None) xs then Some (map (\<lambda>x. the (f x)) xs) else None)"
  by (induction xs) (auto split: option.splits)

lemma first_seen_distinct: "distinct xs \<Longrightarrow> first_seen xs = xs"
  by (simp add: first_seen_def distinct_remdups_id)

lemma first_seen_append_subset:
  "set ys \<subseteq> set xs \<Longrightarrow> first_seen (xs @ ys) = first_seen xs"
proof -
  assume "set ys \<subseteq> set xs"
  then have "remdups (rev ys @ rev xs) = remdups (rev xs)"
    by (intro remdups_append) simp
  then show ?thesis
    by (simp add: first_seen_def)
qed

lemma first_seen_concat_equal:
  assumes "dfs \<noteq> []" "\<forall>df\<in>set dfs. index df = I" "distinct I"
  shows "first_seen (concat (map index dfs)) = I"
proof -
  from assms(1) obtain df0 rest where dfs: "dfs = df0 # rest" by (cases dfs) auto
  have "set (concat (map index rest)) \<subseteq> set I"
    using assms(2) dfs by auto
  then have "first_seen (I @ concat (map index rest)) = first_seen I"
    by (rule first_seen_append_subset)
  then show ?thesis using assms(2,3) dfs by (simp add: first_seen_distinct)
qed

lemma map_of_zip_nth:
  "distinct xs \<Longrightarrow> i < length xs \<Longrightarrow> i < length ys \<Longrightarrow> map_of (zip xs ys) (xs ! i) = Some (ys ! i)"
proof (induction xs arbitrary: ys i)
  case Nil
  then show ?case by simp
next
  case (Cons x xs)
  from Cons.prems obtain y ys' where ys: "ys = y # ys'" by (cases ys) auto
  show ?case
  proof (cases i)
    case 0
    then show ?thesis by (simp add: ys)
  next
    case (Suc j)
    with Cons.prems ys have "xs ! j \<noteq> x" by auto
    with Cons.IH [of j ys'] Cons.prems Suc ys show ?thesis by simp
  qed
qed

lemma reindex_self:
  assumes "distinct I" "length c = length I"
  shows "reindex I c I = c"
proof (rule nth_equalityI)
  show "length (reindex I c I) = length c" using assms by (simp add: reindex_def)
next
  fix i assume "i < length (reindex I c I)"
  then have i: "i < length I" by (simp add: reindex_def)
  with assms have "map_of (zip I c) (I ! i) = Some (c ! i)"
    by (simp add: map_of_zip_nth)
  with i show "reindex I c I ! i = c ! i" by (simp add: reindex_def)
qed

lemma pd_concat_distinct:
  assumes ne: "dfs \<noteq> []"
    and dist: "\<forall>df\<in>set dfs. distinct (index df)"
    and shape: "\<forall>df\<in>set dfs. well_shaped df"
  shows "pd_concat dfs =
    Inr \<lparr>index = first_seen (concat (map index dfs)),
         columns = concat (map (\<lambda>df. map (\<lambda>(n, c). (n, reindex (index df) c (first_seen (concat (map index dfs)))))
                                     (columns df)) dfs)\<rparr>"
proof -
  from ne obtain df0 rest where dfs: "dfs = df0 # rest" by (cases dfs) auto
  show ?thesis
  proof (cases "list_all (\<lambda>df. index df = index df0) dfs")
    case True
    then have eq: "\<forall>df\<in>set dfs. index df = index df0" by (simp add: list_all_iff)
    have d0: "distinct (index df0)" using dist dfs by simp
    have U: "first_seen (concat (map index dfs)) = index df0"
      by (rule first_seen_concat_equal [OF ne eq d0])
    have "map (\<lambda>(n, c). (n, reindex (index df) c (index df0))) (columns df) = columns df"
      if "df \<in> set dfs" for df
    proof -
      have "reindex (index df) c (index df0) = c" if "(n, c) \<in> set (columns df)" for n c
      proof -
        from \<open>df \<in> set dfs\<close> shape that have "length c = length (index df)"
          by (auto simp: well_shaped_def list_all_iff)
        moreover from \<open>df \<in> set dfs\<close> eq have "index df = index df0" by simp
        ultimately show ?thesis using d0 by (simp add: reindex_self)
      qed
      then show ?thesis by (intro map_idI) auto
    qed
    then have "concat (map (\<lambda>df. map (\<lambda>(n, c). (n, reindex (index df) c (index df0))) (columns df)) dfs)
        = concat (map columns dfs)"
      by (intro arg_cong [where f = concat] map_cong) auto
    with True U show ?thesis
      by (simp add: pd_concat_def dfs)
  next
    case False
    moreover have "\<not> list_ex (\<lambda>df. \<not> distinct (index df)) dfs"
      using dist by (simp add: list_ex_iff)
    ultimately show ?thesis
      by (simp add: pd_concat_def dfs Let_def)
  qed
qed

lemma map_of_mset_eq:
  assumes "mset xs = mset ys" "distinct (map fst xs)"
  shows "map_of xs = map_of ys"
proof -
  from assms(1) have "mset (map fst xs) = mset (map fst ys)" by simp
  from mset_eq_imp_distinct_iff [OF this] assms(2) have "distinct (map fst ys)" by simp
  moreover from assms(1) have "set xs = set ys" by (rule mset_eq_setD)
  ultimately show ?thesis using assms(2) by (simp add: map_of_inject_set)
qed

lemma map_sort_key: "map f (sort_key f xs) = sort (map f xs)"
proof -
  have "mset (map f (sort_key f xs)) = mset (map f xs)" by simp
  moreover have "sorted (map f (sort_key f xs))" by simp
  ultimately show ?thesis by (metis properties_for_sort)
qed

lemma zip_map_fst_snd': "zip (map fst ys) (map snd ys) = ys"
  by (induction ys) auto

lemma map_of_map_inj:
  assumes "inj_on f (set xs)" "x \<in> set xs"
  shows "map_of (map (\<lambda>l. (f l, g l)) xs) (f x) = Some (g x)"
  using assms by (induction xs) (auto simp: inj_on_def)

lemma zip_map_same: "zip (map f xs) (map g xs) = map (\<lambda>x. (f x, g x)) xs"
  by (induction xs) auto

text \<open>The sorted column of a reindexed column, read at a converted label.\<close>

lemma sorted_reindexed_cell:
  fixes f :: "'l \<Rightarrow> 'd::linorder"
  assumes inj: "inj_on f (set U)" and d: "distinct U" and l: "l \<in> set U"
  shows "map_of (zip (sort (map f U)) (map snd (sort_key fst (zip (map f U) (map g U))))) (f l) = Some (g l)"
proof -
  let ?h = "\<lambda>l. (f l, g l)"
  let ?ys = "sort_key fst (map ?h U)"
  have "map fst ?ys = sort (map f U)"
    by (simp add: map_sort_key comp_def)
  then have "zip (sort (map f U)) (map snd ?ys) = ?ys"
    by (metis zip_map_fst_snd')
  moreover have "distinct (map fst (map ?h U))"
    using inj d by (simp add: comp_def distinct_map)
  then have "map_of ?ys = map_of (map ?h U)"
    by (intro map_of_mset_eq [symmetric]) simp_all
  ultimately show ?thesis
    using map_of_map_inj [OF inj l, of g] by (simp add: zip_map_same)
qed

lemma map_of_filter_key:
  "map_of (filter (\<lambda>(n', c). n' = l) xs) n = (if n = l then map_of xs n else None)"
  by (induction xs) auto

lemma map_of_select:
  "map_of (concat (map (\<lambda>l. filter (\<lambda>(n', c). n' = l) xs) ls)) n
     = (if n \<in> set ls then map_of xs n else None)"
  by (induction ls) (auto simp: map_add_def map_of_filter_key split: option.splits)

lemma map_of_filter_not_realtime:
  "\<not> prefix ''realtime'' n \<Longrightarrow>
    map_of (filter (\<lambda>(n', c). \<not> prefix ''realtime'' n') xs) n = map_of xs n"
  by (induction xs) auto

lemma map_of_map_column:
  "map_of (map (\<lambda>(n, c). (n, F c)) xs) n = map_option F (map_of xs n)"
  by (induction xs) auto

lemma merge_cong:
  assumes "pd_concat dfs = Inr df1" and "convert (index df1) = convert' (index df1)"
  shows "merge convert dfs = merge convert' dfs"
  using assms by (simp add: merge_def to_datetime_def)

lemma merge_concat_fails:
  "pd_concat dfs = Inl e \<Longrightarrow> merge convert dfs = Inl e"
  by (simp add: merge_def)

lemma merge_after_concat:
  assumes "pd_concat dfs = Inr df1"
  shows "merge (labelwise timestamp) dfs =
    (if list_all (\<lambda>l. timestamp l \<noteq> None) (index df1)
     then let D = map (\<lambda>l. the (timestamp l)) (index df1);
              df3 = \<lparr>index = sort D,
                     columns = map (\<lambda>(n, c). (n, map snd (sort_key fst (zip D c))))
                                 (filter (\<lambda>(n, c). \<not> prefix ''realtime'' n) (columns df1))\<rparr>
          in Inr (select_columns (columns_order df3) df3)
     else Inl ValueError)"
  using assms
  by (simp add: merge_def to_datetime_def labelwise_def those_map sort_index_def drop_realtime_def Let_def)

text \<open>
  Claim C6.  For a non-empty collection of Series Tables (in each, the dates
  are distinct and the columns as long as the index; the tables carry
  different column names) whose dates convert, different dates to different
  timestamps, the merge succeeds.  The Merged Table has one row for every date
  of the union of the tables' dates and no other row, in ascending order.
  The cell of a configured series at a date is the series' value at that date
  and is empty, the row still being there, where the series has no
  observation at that date.  Here \<open>timestamp\<close> is what the conversion of the
  joined index, the dates of the tables in the order of their first
  occurrence, makes of each date.
\<close>

theorem merge_outer_join:
  fixes timestamp :: "cell \<Rightarrow> 'd::linorder option"
  assumes ne: "dfs \<noteq> []"
    and tables: "\<forall>df\<in>set dfs. distinct (index df) \<and> well_shaped df"
    and cols: "distinct (concat (map names dfs))"
    and conv: "\<forall>l\<in>(\<Union>df\<in>set dfs. set (index df)). timestamp l \<noteq> None"
    and inj: "inj_on timestamp (\<Union>df\<in>set dfs. set (index df))"
    and joined: "convert (first_seen (concat (map index dfs)))
                   = labelwise timestamp (first_seen (concat (map index dfs)))"
  shows "\<exists>m. merge convert dfs = Inr m
     \<and> sorted (index m) \<and> distinct (index m)
     \<and> Some ` set (index m) = timestamp ` (\<Union>df\<in>set dfs. set (index df))
     \<and> (\<forall>df\<in>set dfs. \<forall>n\<in>set (names df). n \<in> snd ` set SERIES_IDS \<longrightarrow>
          (\<forall>l\<in>(\<Union>df\<in>set dfs. set (index df)). \<forall>d. timestamp l = Some d \<longrightarrow>
             cell_at m n d = Some (case cell_at df n l of None \<Rightarrow> None | Some v \<Rightarrow> v)))"
proof -
  let ?L = "\<Union>df\<in>set dfs. set (index df)"
  let ?U = "first_seen (concat (map index dfs))"
  let ?f = "\<lambda>l. the (timestamp l)"
  let ?D = "map ?f ?U"
  let ?S = "\<lambda>c. map snd (sort_key fst (zip ?D c))"
  let ?cs = "concat (map (\<lambda>df. map (\<lambda>(n, c). (n, reindex (index df) c ?U)) (columns df)) dfs)"
  let ?df1 = "\<lparr>index = ?U, columns = ?cs\<rparr>"
  let ?df3 = "\<lparr>index = sort ?D,
       columns = map (\<lambda>(n, c). (n, ?S c)) (filter (\<lambda>(n, c). \<not> prefix ''realtime'' n) ?cs)\<rparr>"
  let ?m = "select_columns (columns_order ?df3) ?df3"
  have setU: "set ?U = ?L" by simp
  have concat1: "pd_concat dfs = Inr ?df1"
    using pd_concat_distinct [OF ne] tables by blast
  have all: "list_all (\<lambda>l. timestamp l \<noteq> None) ?U"
    using conv by (simp add: list_all_iff)
  have "merge convert dfs = merge (labelwise timestamp) dfs"
    by (rule merge_cong [OF concat1]) (simp add: joined)
  then have m: "merge convert dfs = Inr ?m"
    using all by (simp add: merge_after_concat [OF concat1] Let_def)
  have injf: "inj_on ?f ?L"
  proof (rule inj_onI)
    fix x y assume "x \<in> ?L" "y \<in> ?L" "?f x = ?f y"
    moreover from this conv have "timestamp x \<noteq> None" "timestamp y \<noteq> None" by blast+
    ultimately have "timestamp x = timestamp y" by (metis option.expand)
    from inj_onD [OF inj this \<open>x \<in> ?L\<close> \<open>y \<in> ?L\<close>] show "x = y" .
  qed
  have idx: "index ?m = sort ?D" by simp
  have "distinct ?D"
    using injf by (simp add: distinct_map)
  then have 1: "sorted (index ?m)" "distinct (index ?m)" by (simp_all add: idx)
  have "Some ` ?f ` ?L = timestamp ` ?L"
    using conv by (force simp: image_iff)
  then have 2: "Some ` set (index ?m) = timestamp ` ?L"
    by (simp add: idx)
  have names_cs: "map fst ?cs = concat (map names dfs)"
    by (simp add: map_concat comp_def case_prod_unfold names_def [abs_def])
  have 3: "cell_at ?m n d = Some (case cell_at df n l of None \<Rightarrow> None | Some v \<Rightarrow> v)"
    if df: "df \<in> set dfs" and n: "n \<in> set (names df)" and cfg: "n \<in> snd ` set SERIES_IDS"
      and l: "l \<in> ?L" and d: "timestamp l = Some d" for df n l d
  proof -
    from n obtain c where c: "(n, c) \<in> set (columns df)"
      by (auto simp: names_def)
    have "distinct (names df)"
      using cols df by (auto simp: distinct_concat_iff)
    then have mdf: "map_of (columns df) n = Some c"
      using c by (simp add: names_def)
    let ?g = "\<lambda>l. case map_of (zip (index df) c) l of None \<Rightarrow> None | Some v \<Rightarrow> v"
    have rc: "reindex (index df) c ?U = map ?g ?U"
      by (simp add: reindex_def)
    have "(n, reindex (index df) c ?U) \<in> set ?cs"
      using df c by force
    moreover have "distinct (map fst ?cs)"
      using cols by (simp only: names_cs)
    ultimately have mcs: "map_of ?cs n = Some (reindex (index df) c ?U)"
      by simp
    have nrt: "\<not> prefix ''realtime'' n"
      using cfg configured_not_realtime by auto
    have m3: "map_of (columns ?df3) n = Some (?S (reindex (index df) c ?U))"
      using mcs by (simp add: map_of_map_column map_of_filter_not_realtime [OF nrt])
    then have "(n, ?S (reindex (index df) c ?U)) \<in> set (columns ?df3)"
      by (rule map_of_SomeD)
    then have "n \<in> set (names ?df3)"
      unfolding names_def set_map by (rule rev_image_eqI) simp
    then have "n \<in> set (columns_order ?df3)"
      using cfg by (simp add: columns_order_def)
    then have mm: "map_of (columns ?m) n = Some (?S (reindex (index df) c ?U))"
      using m3 by (simp add: select_columns_def map_of_select)
    have fl: "?f l = d" using d by simp
    have "map_of (zip (sort ?D) (?S (map ?g ?U))) (?f l) = Some (?g l)"
      by (rule sorted_reindexed_cell) (use injf l in \<open>simp_all\<close>)
    then have "cell_at ?m n d = Some (?g l)"
      using mm fl by (simp add: cell_at_def rc)
    then show ?thesis
      using mdf by (simp add: cell_at_def)
  qed
  from m 1 2 3 show ?thesis by blast
qed

theorem merge_outer_join_witness:
  "\<exists>m. merge (labelwise (\<lambda>c. c))
         [\<lparr>index = [Some ''2020-01-03'', Some ''2020-01-04''],
           columns = [(''M2'', [Some ''15400'', Some ''15410''])]\<rparr>,
          \<lparr>index = [Some ''2020-01-01'', Some ''2020-01-02''],
           columns = [(''unemployment Ratio'', [Some ''3.5'', Some ''3.6''])]\<rparr>] = Inr m
     \<and> sorted (index m) \<and> distinct (index m)
     \<and> cell_at m ''M2'' ''2020-01-03'' = Some (Some ''15400'')
     \<and> cell_at m ''unemployment Ratio'' ''2020-01-03'' = Some None"
proof -
  let ?A = "\<lparr>index = [Some ''2020-01-03'', Some ''2020-01-04''],
           columns = [(''M2'', [Some ''15400'', Some ''15410''])]\<rparr>"
  let ?B = "\<lparr>index = [Some ''2020-01-01'', Some ''2020-01-02''],
           columns = [(''unemployment Ratio'', [Some ''3.5'', Some ''3.6''])]\<rparr>"
  let ?L = "\<Union>df\<in>set [?A, ?B]. set (index df)"
  have 1: "[?A, ?B] \<noteq> []" by simp
  have 2: "\<forall>df\<in>set [?A, ?B]. distinct (index df) \<and> well_shaped df"
    by (simp add: well_shaped_def)
  have 3: "distinct (concat (map names [?A, ?B]))"
    by (simp add: names_def)
  have 4: "\<forall>l\<in>?L. (\<lambda>c::cell. c) l \<noteq> None" by simp
  have 5: "inj_on (\<lambda>c::cell. c) ?L" by (simp add: inj_on_def)
  from merge_outer_join [where convert = "labelwise (\<lambda>c. c)", OF 1 2 3 4 5 refl]
  obtain m where "merge (labelwise (\<lambda>c. c)) [?A, ?B] = Inr m
     \<and> sorted (index m) \<and> distinct (index m)
     \<and> Some ` set (index m) = (\<lambda>c. c) ` ?L
     \<and> (\<forall>df\<in>set [?A, ?B]. \<forall>n\<in>set (names df). n \<in> snd ` set SERIES_IDS \<longrightarrow>
          (\<forall>l\<in>?L. \<forall>d. l = Some d \<longrightarrow>
             cell_at m n d = Some (case cell_at df n l of None \<Rightarrow> None | Some v \<Rightarrow> v)))" ..
  note ex = this
  note m = ex [THEN conjunct1]
  note s1 = ex [THEN conjunct2, THEN conjunct1]
  note s2 = ex [THEN conjunct2, THEN conjunct2, THEN conjunct1]
  note cells = ex [THEN conjunct2, THEN conjunct2, THEN conjunct2, THEN conjunct2]
  have cfg: "''M2'' \<in> snd ` set SERIES_IDS" "''unemployment Ratio'' \<in> snd ` set SERIES_IDS"
    by (simp_all add: SERIES_IDS_def)
  have l: "Some ''2020-01-03'' \<in> ?L" by simp
  have inA: "?A \<in> set [?A, ?B]" and inB: "?B \<in> set [?A, ?B]" by simp_all
  have nA: "''M2'' \<in> set (names ?A)" and nB: "''unemployment Ratio'' \<in> set (names ?B)"
    by (simp_all add: names_def)
  from cells [rule_format, OF inA nA cfg(1) l refl]
  have a: "cell_at m ''M2'' ''2020-01-03'' = Some (Some ''15400'')"
    by (simp add: cell_at_def)
  from cells [rule_format, OF inB nB cfg(2) l refl]
  have b: "cell_at m ''unemployment Ratio'' ''2020-01-03'' = Some None"
    by (simp add: cell_at_def)
  from m s1 s2 a b show ?thesis by (intro exI [of _ m] conjI)
qed

section \<open>The loop and the cleanup\<close>

lemma path_join_OUTPUT_DIR:
  "path_join OUTPUT_DIR b = (if prefix ''/'' b then b else ''economic_indicators_data/'' @ b)"
  by (auto simp: path_join_def OUTPUT_DIR_def suffix_def)

lemma series_file_eq:
  "series_file n = (if prefix ''/'' n then n @ ''.csv'' else ''economic_indicators_data/'' @ n @ ''.csv'')"
  by (cases n) (auto simp: series_file_def path_join_OUTPUT_DIR)

lemma series_file_inj: "series_file n = series_file n' \<Longrightarrow> n = n'"
  by (cases n; cases n') (auto simp: series_file_eq split: if_splits)

lemma output_file_eq:
  "path_join OUTPUT_DIR ''economic_indicators.csv'' = series_file ''economic_indicators''"
  by (simp add: series_file_def)

lemma output_not_configured: "''economic_indicators'' \<notin> snd ` set SERIES_IDS"
  by (simp add: SERIES_IDS_def)

lemma cleanup_unfold:
  "cleanup (series_name # rest) w =
     (case fs w (series_file series_name) of
        None \<Rightarrow> cleanup rest w
      | Some Dir \<Rightarrow> (Some OSError, w)
      | Some (File content) \<Rightarrow>
          cleanup rest (w\<lparr>fs := (fs w)(series_file series_name := None),
                           log := log w @ [Deleted (series_file series_name)]\<rparr>))"
  by (simp only: cleanup.simps Let_def series_file_def)

declare cleanup.simps(2) [simp del]

lemma cleanup_changes:
  "cleanup ns w = (e, w') \<Longrightarrow>
     fs w' p = fs w p \<or>
     (\<exists>n\<in>set ns. p = series_file n \<and> (\<exists>content. fs w p = Some (File content)) \<and> fs w' p = None)"
proof (induction ns arbitrary: w)
  case Nil
  then show ?case by simp
next
  case (Cons series_name rest)
  show ?case
  proof (cases "fs w (series_file series_name)")
    case None
    with Cons.prems have "cleanup rest w = (e, w')" by (simp add: cleanup_unfold)
    from Cons.IH [OF this] show ?thesis by auto
  next
    case (Some node)
    show ?thesis
    proof (cases node)
      case Dir
      with Some Cons.prems show ?thesis by (simp add: cleanup_unfold)
    next
      case (File content)
      let ?w2 = "w\<lparr>fs := (fs w)(series_file series_name := None),
                           log := log w @ [Deleted (series_file series_name)]\<rparr>"
      from File Some Cons.prems have "cleanup rest ?w2 = (e, w')" by (simp add: cleanup_unfold)
      from Cons.IH [OF this] File Some show ?thesis
        by (cases "p = series_file series_name") auto
    qed
  qed
qed

lemma cleanup_other_path:
  assumes "cleanup ns w = (e, w')" "\<forall>n\<in>set ns. p \<noteq> series_file n"
  shows "fs w' p = fs w p"
  using cleanup_changes [OF assms(1), of p] assms(2) by auto

lemma collect_eq:
  "collect result order (dfs, successful_series, w) =
     (dfs @ concat (map (\<lambda>s. case result s of Inl e \<Rightarrow> [] | Inr df \<Rightarrow> [df])
                       (filter (completed_nonempty result) order)),
      successful_series @ map snd (filter (completed_nonempty result) order),
      w\<lparr>log := log w @ map (\<lambda>s. case result s of Inl e \<Rightarrow> Failed (snd s) e | Inr df \<Rightarrow> Done (snd s))
                          (filter (\<lambda>s. case result s of Inl e \<Rightarrow> True | Inr df \<Rightarrow> \<not> df_empty df) order)\<rparr>)"
proof (induction order arbitrary: dfs successful_series w)
  case Nil
  show ?case by simp
next
  case (Cons s order)
  obtain series_id series_name where s: "s = (series_id, series_name)" by (cases s)
  show ?case
    unfolding s by (cases "result (series_id, series_name)") (simp_all add: Cons.IH completed_nonempty_def)
qed

lemma configured_name_unique:
  "(a, n) \<in> set SERIES_IDS \<Longrightarrow> (b, n) \<in> set SERIES_IDS \<Longrightarrow> a = b"
proof -
  assume a: "(a, n) \<in> set SERIES_IDS" and b: "(b, n) \<in> set SERIES_IDS"
  have "inj_on snd (set SERIES_IDS)"
    using distinct_configured by (simp add: distinct_map)
  from inj_onD [OF this _ a b] show "a = b" by simp
qed

lemma cleanup_keeps_output:
  assumes "cleanup ns w = (e, w')" "set ns \<subseteq> snd ` set SERIES_IDS"
  shows "fs w' (path_join OUTPUT_DIR ''economic_indicators.csv'')
         = fs w (path_join OUTPUT_DIR ''economic_indicators.csv'')"
proof -
  have "\<forall>n\<in>set ns. path_join OUTPUT_DIR ''economic_indicators.csv'' \<noteq> series_file n"
  proof
    fix n assume "n \<in> set ns"
    then have "n \<in> snd ` set SERIES_IDS" using assms(2) by auto
    then have "n \<noteq> ''economic_indicators''" using output_not_configured by blast
    then show "path_join OUTPUT_DIR ''economic_indicators.csv'' \<noteq> series_file n"
      unfolding output_file_eq using series_file_inj by blast
  qed
  then show ?thesis by (rule cleanup_other_path [OF assms(1)])
qed

lemma successful_configured:
  assumes "collect result order ([], [], w0) = (dfs, successful_series, w1)"
    and "set order \<subseteq> set SERIES_IDS"
  shows "set successful_series \<subseteq> snd ` set SERIES_IDS"
proof -
  from assms(1) have "successful_series = map snd (filter (completed_nonempty result) order)"
    by (simp add: collect_eq)
  with assms(2) show ?thesis by auto
qed

text \<open>
  Claim C10.  The cleanup after the write changes the file system only by
  deleting existing files \<open>OUTPUT_DIR/<display name>.csv\<close> of series that the
  loop marked successful.  The file \<open>economic_indicators.csv\<close> and the
  intermediate files of the series that failed or came back empty stay as
  they were.
\<close>

theorem cleanup_frame:
  assumes sub: "set order \<subseteq> set SERIES_IDS"
    and coll: "collect result order ([], [], w0) = (dfs, successful_series, w1)"
    and clean: "cleanup successful_series w = (e, w')"
  shows "(\<forall>p. fs w' p = fs w p \<or>
           (\<exists>(series_id, series_name)\<in>set order.
               completed_nonempty result (series_id, series_name) \<and> p = series_file series_name
               \<and> (\<exists>content. fs w p = Some (File content)) \<and> fs w' p = None))
     \<and> fs w' (path_join OUTPUT_DIR ''economic_indicators.csv'')
         = fs w (path_join OUTPUT_DIR ''economic_indicators.csv'')
     \<and> (\<forall>(series_id, series_name)\<in>set order.
           \<not> completed_nonempty result (series_id, series_name) \<longrightarrow>
             fs w' (series_file series_name) = fs w (series_file series_name))"
proof -
  have succ: "successful_series = map snd (filter (completed_nonempty result) order)"
    using coll by (simp add: collect_eq)
  have 1: "fs w' p = fs w p \<or>
           (\<exists>(series_id, series_name)\<in>set order.
               completed_nonempty result (series_id, series_name) \<and> p = series_file series_name
               \<and> (\<exists>content. fs w p = Some (File content)) \<and> fs w' p = None)" for p
    using cleanup_changes [OF clean, of p] by (auto simp: succ)
  have 2: "fs w' (path_join OUTPUT_DIR ''economic_indicators.csv'')
         = fs w (path_join OUTPUT_DIR ''economic_indicators.csv'')"
    by (rule cleanup_keeps_output [OF clean successful_configured [OF coll sub]])
  have 3: "fs w' (series_file series_name) = fs w (series_file series_name)"
    if s: "(series_id, series_name) \<in> set order"
      and bad: "\<not> completed_nonempty result (series_id, series_name)" for series_id series_name
  proof -
    have "series_name \<notin> set successful_series"
    proof
      assume "series_name \<in> set successful_series"
      then obtain sid where "(sid, series_name) \<in> set order"
        and good: "completed_nonempty result (sid, series_name)"
        by (auto simp: succ)
      with s sub have "sid = series_id"
        by (auto intro: configured_name_unique)
      with good bad show False by simp
    qed
    then have "\<forall>n\<in>set successful_series. series_file series_name \<noteq> series_file n"
      using series_file_inj by blast
    then show ?thesis by (rule cleanup_other_path [OF clean])
  qed
  from 1 2 3 show ?thesis by blast
qed

theorem cleanup_frame_witness:
  "fs (snd (cleanup [''unemployment Ratio'']
      \<lparr>fs = [''economic_indicators_data'' \<mapsto> Dir,
              ''economic_indicators_data/unemployment Ratio.csv'' \<mapsto> File ''date,unemployment Ratio'',
              ''economic_indicators_data/M2.csv'' \<mapsto> File ''date,M2'',
              ''economic_indicators_data/economic_indicators.csv'' \<mapsto> File ''date,unemployment Ratio''],
        log = []\<rparr>)) (series_file ''M2'') = Some (File ''date,M2'')
   \<and> fs (snd (cleanup [''unemployment Ratio'']
      \<lparr>fs = [''economic_indicators_data'' \<mapsto> Dir,
              ''economic_indicators_data/unemployment Ratio.csv'' \<mapsto> File ''date,unemployment Ratio'',
              ''economic_indicators_data/M2.csv'' \<mapsto> File ''date,M2'',
              ''economic_indicators_data/economic_indicators.csv'' \<mapsto> File ''date,unemployment Ratio''],
        log = []\<rparr>)) (path_join OUTPUT_DIR ''economic_indicators.csv'')
       = Some (File ''date,unemployment Ratio'')
   \<and> fs (snd (cleanup [''unemployment Ratio'']
      \<lparr>fs = [''economic_indicators_data'' \<mapsto> Dir,
              ''economic_indicators_data/unemployment Ratio.csv'' \<mapsto> File ''date,unemployment Ratio'',
              ''economic_indicators_data/M2.csv'' \<mapsto> File ''date,M2'',
              ''economic_indicators_data/economic_indicators.csv'' \<mapsto> File ''date,unemployment Ratio''],
        log = []\<rparr>)) (series_file ''unemployment Ratio'') = None"
proof -
  let ?df = "\<lparr>index = [Some ''2024-06-01''], columns = [(''unemployment Ratio'', [Some ''4.1''])]\<rparr>"
  let ?result = "\<lambda>s. if s = (''UNRATE'', ''unemployment Ratio'') then Inr ?df
                     else if s = (''M2SL'', ''M2'') then Inl KeyError else Inr empty_frame"
  let ?w = "\<lparr>fs = [''economic_indicators_data'' \<mapsto> Dir,
              ''economic_indicators_data/unemployment Ratio.csv'' \<mapsto> File ''date,unemployment Ratio'',
              ''economic_indicators_data/M2.csv'' \<mapsto> File ''date,M2'',
              ''economic_indicators_data/economic_indicators.csv'' \<mapsto> File ''date,unemployment Ratio''],
        log = []\<rparr>"
  let ?r = "cleanup [''unemployment Ratio''] ?w"
  have 1: "set SERIES_IDS \<subseteq> set SERIES_IDS" by simp
  have 2: "collect ?result SERIES_IDS ([], [], ?w)
      = ([?df], [''unemployment Ratio''],
         ?w\<lparr>log := [Done ''unemployment Ratio'', Failed ''M2'' KeyError]\<rparr>)"
    by (simp add: SERIES_IDS_def df_empty_def empty_frame_def)
  have 3: "?r = (fst ?r, snd ?r)" by simp
  have 4: "(''M2SL'', ''M2'') \<in> set SERIES_IDS" by (simp add: SERIES_IDS_def)
  have 5: "\<not> completed_nonempty ?result (''M2SL'', ''M2'')" by (simp add: completed_nonempty_def)
  note frame = cleanup_frame [OF 1 2 3]
  from frame [THEN conjunct2, THEN conjunct2, rule_format, OF 4] 5
  have a: "fs (snd ?r) (series_file ''M2'') = Some (File ''date,M2'')"
    by (simp add: series_file_eq)
  from frame [THEN conjunct2, THEN conjunct1]
  have b: "fs (snd ?r) (path_join OUTPUT_DIR ''economic_indicators.csv'')
      = Some (File ''date,unemployment Ratio'')"
    by (simp add: path_join_OUTPUT_DIR)
  have c: "fs (snd ?r) (series_file ''unemployment Ratio'') = None"
    by (simp add: cleanup_unfold series_file_eq)
  from a b c show ?thesis by (intro conjI)
qed

section \<open>Failures of the fetches\<close>

lemma merge_Nil: "merge convert [] = Inl ValueError"
  by (simp add: merge_def pd_concat_def)

lemma dirname_output:
  "dirname (path_join OUTPUT_DIR ''economic_indicators.csv'') = OUTPUT_DIR"
  by (simp add: path_join_OUTPUT_DIR dirname_def) (simp add: OUTPUT_DIR_def)

lemma can_write_output:
  assumes "files OUTPUT_DIR = Some Dir"
    and "files (path_join OUTPUT_DIR ''economic_indicators.csv'') \<noteq> Some Dir"
  shows "can_write files (path_join OUTPUT_DIR ''economic_indicators.csv'')"
proof -
  have "path_join OUTPUT_DIR ''economic_indicators.csv'' \<noteq> []"
    and "\<not> suffix ''/'' (path_join OUTPUT_DIR ''economic_indicators.csv'')"
    by (simp_all add: path_join_OUTPUT_DIR suffix_def)
  with assms show ?thesis
    unfolding can_write_def dirname_output by simp
qed

lemma save_data_written:
  assumes "\<forall>content. fs w OUTPUT_DIR \<noteq> Some (File content)"
    and "fs w (path_join OUTPUT_DIR ''economic_indicators.csv'') \<noteq> Some Dir"
  shows "\<exists>w'. save_data to_csv df ''economic_indicators.csv'' w = (None, w')
           \<and> fs w' (path_join OUTPUT_DIR ''economic_indicators.csv'') = Some (File (to_csv df))"
proof -
  let ?out = "path_join OUTPUT_DIR ''economic_indicators.csv''"
  let ?w1 = "w\<lparr>fs := (fs w)(OUTPUT_DIR \<mapsto> Dir)\<rparr>"
  have "?out = ''economic_indicators_data/economic_indicators.csv''"
    by (simp add: path_join_OUTPUT_DIR)
  then have "?out \<noteq> OUTPUT_DIR"
    by (simp add: OUTPUT_DIR_def)
  with assms(2) have "fs ?w1 ?out \<noteq> Some Dir" by simp
  moreover have "fs ?w1 OUTPUT_DIR = Some Dir" by simp
  ultimately have cw: "can_write (fs ?w1) ?out" by (rule can_write_output [rotated])
  have "save_data to_csv df ''economic_indicators.csv'' w =
      (None, ?w1\<lparr>fs := (fs ?w1)(?out \<mapsto> File (to_csv df)),
                  log := log ?w1 @ [Saved ?out]\<rparr>)"
    using assms(1) cw
    by (cases "fs w OUTPUT_DIR")
       (auto simp: save_data_def Let_def split: node.splits option.splits)
  then show ?thesis by simp
qed

text \<open>
  Claim C1 fails on the code.  When no series completes with a non-empty
  table, the list handed to \<open>pd.concat\<close> is empty and \<open>main\<close> ends with a
  \<open>ValueError\<close>; nothing is written.
\<close>

theorem main_without_data_raises:
  assumes "list_all (\<lambda>s. \<not> completed_nonempty
             (\<lambda>(series_id, series_name). get_data numeric http series_id series_name API_KEY) s)
             completion_order"
  shows "fst (main numeric convert to_csv http completion_order w) = Some ValueError
    \<and> fs (snd (main numeric convert to_csv http completion_order w)) = fs w"
proof -
  let ?result = "\<lambda>(series_id, series_name). get_data numeric http series_id series_name API_KEY"
  from assms have "filter (completed_nonempty ?result) completion_order = []"
    by (simp add: filter_empty_conv list_all_iff)
  then show ?thesis
    by (simp add: main_def collect_eq finish_def merge_Nil)
qed

theorem main_without_data_raises_witness:
  "fst (main (\<lambda>s. s \<noteq> ''.'') (labelwise (\<lambda>c. c)) (\<lambda>df. df) (\<lambda>u. Request_failed ConnectionError) SERIES_IDS
          \<lparr>fs = Map.empty, log = []\<rparr>) = Some ValueError
   \<and> fs (snd (main (\<lambda>s. s \<noteq> ''.'') (labelwise (\<lambda>c. c)) (\<lambda>df. df) (\<lambda>u. Request_failed ConnectionError) SERIES_IDS
          \<lparr>fs = Map.empty, log = []\<rparr>)) (path_join OUTPUT_DIR ''economic_indicators.csv'') = None"
proof -
  have "list_all (\<lambda>s. \<not> completed_nonempty
             (\<lambda>(series_id, series_name). get_data (\<lambda>s. s \<noteq> ''.'') (\<lambda>u. Request_failed ConnectionError)
                 series_id series_name API_KEY) s) SERIES_IDS"
    by (simp add: SERIES_IDS_def completed_nonempty_def get_data_def df_empty_def empty_frame_def)
  from main_without_data_raises [OF this, of "labelwise (\<lambda>c. c)" "\<lambda>df. df" "\<lparr>fs = Map.empty, log = []\<rparr>"]
  show ?thesis by simp
qed

lemma completed_nonempty_iff:
  "completed_nonempty result s \<longleftrightarrow> (\<exists>df. result s = Inr df \<and> \<not> df_empty df)"
  by (cases "result s") (simp_all add: completed_nonempty_def)

lemma set_recorded:
  "set (concat (map (\<lambda>s. case result s of Inl e \<Rightarrow> [] | Inr df \<Rightarrow> [df])
          (filter (completed_nonempty result) order)))
     = {df. \<exists>s\<in>set order. result s = Inr df \<and> \<not> df_empty df}"
  by (auto simp: completed_nonempty_iff)

text \<open>
  Claim C9.  Whatever the fetches end in, the loop runs to its end and
  \<open>main\<close> goes on to merge and write with what the loop collected.  An
  exception of a fetch is logged under the series' name, and the non-empty
  table of every other series is recorded.  A name is marked successful, and a
  table recorded, exactly when a fetch completed with a non-empty table.  If
  the merge of the recorded tables succeeds and the output location is
  usable, the merged file is written.
\<close>

theorem main_isolates_fetch_failures:
  assumes coll: "collect (\<lambda>(series_id, series_name). get_data numeric http series_id series_name API_KEY)
             completion_order ([], [], w) = (dfs, successful_series, w')"
    and sub: "set completion_order \<subseteq> set SERIES_IDS"
  shows "main numeric convert to_csv http completion_order w
           = finish convert to_csv (dfs, successful_series, w')
    \<and> fs w' = fs w
    \<and> (\<forall>series_id series_name. (series_id, series_name) \<in> set completion_order \<longrightarrow>
          (case get_data numeric http series_id series_name API_KEY of
             Inl e \<Rightarrow> Failed series_name e \<in> set (log w')
           | Inr df \<Rightarrow> df_empty df \<or> df \<in> set dfs \<and> series_name \<in> set successful_series))
    \<and> (\<forall>series_name. series_name \<in> set successful_series \<longleftrightarrow>
          (\<exists>series_id df. (series_id, series_name) \<in> set completion_order
             \<and> get_data numeric http series_id series_name API_KEY = Inr df \<and> \<not> df_empty df))
    \<and> (\<forall>df. df \<in> set dfs \<longleftrightarrow>
          (\<exists>series_id series_name. (series_id, series_name) \<in> set completion_order
             \<and> get_data numeric http series_id series_name API_KEY = Inr df \<and> \<not> df_empty df))
    \<and> (\<forall>m. merge convert dfs = Inr m
            \<and> (\<forall>content. fs w OUTPUT_DIR \<noteq> Some (File content))
            \<and> fs w (path_join OUTPUT_DIR ''economic_indicators.csv'') \<noteq> Some Dir \<longrightarrow>
          fs (snd (main numeric convert to_csv http completion_order w))
             (path_join OUTPUT_DIR ''economic_indicators.csv'') = Some (File (to_csv m)))"
proof -
  let ?result = "\<lambda>(series_id, series_name). get_data numeric http series_id series_name API_KEY"
  let ?out = "path_join OUTPUT_DIR ''economic_indicators.csv''"
  have dfs: "dfs = concat (map (\<lambda>s. case ?result s of Inl e \<Rightarrow> [] | Inr df \<Rightarrow> [df])
                       (filter (completed_nonempty ?result) completion_order))"
    and succ: "successful_series = map snd (filter (completed_nonempty ?result) completion_order)"
    and w': "w' = w\<lparr>log := log w @ map (\<lambda>s. case ?result s of Inl e \<Rightarrow> Failed (snd s) e | Inr df \<Rightarrow> Done (snd s))
                          (filter (\<lambda>s. case ?result s of Inl e \<Rightarrow> True | Inr df \<Rightarrow> \<not> df_empty df) completion_order)\<rparr>"
    using coll by (simp_all add: collect_eq)
  have 1: "main numeric convert to_csv http completion_order w
           = finish convert to_csv (dfs, successful_series, w')"
    using coll by (simp add: main_def)
  have 2: "fs w' = fs w" by (simp add: w')
  have 3: "case get_data numeric http series_id series_name API_KEY of
             Inl e \<Rightarrow> Failed series_name e \<in> set (log w')
           | Inr df \<Rightarrow> df_empty df \<or> df \<in> set dfs \<and> series_name \<in> set successful_series"
    if "(series_id, series_name) \<in> set completion_order" for series_id series_name
  proof (cases "get_data numeric http series_id series_name API_KEY")
    case (Inl e)
    with that have "Failed series_name e \<in> set (log w')"
      unfolding w' by (force simp: image_iff)
    with Inl show ?thesis by simp
  next
    case (Inr df)
    show ?thesis
    proof (cases "df_empty df")
      case True
      with Inr show ?thesis by simp
    next
      case False
      with Inr that have "df \<in> set dfs" "series_name \<in> set successful_series"
        unfolding dfs succ set_recorded by (force simp: completed_nonempty_iff image_iff)+
      with Inr show ?thesis by simp
    qed
  qed
  have 4: "series_name \<in> set successful_series \<longleftrightarrow>
          (\<exists>series_id df. (series_id, series_name) \<in> set completion_order
             \<and> get_data numeric http series_id series_name API_KEY = Inr df \<and> \<not> df_empty df)"
    for series_name
    unfolding succ by (force simp: completed_nonempty_iff image_iff)
  have 5: "df \<in> set dfs \<longleftrightarrow>
          (\<exists>series_id series_name. (series_id, series_name) \<in> set completion_order
             \<and> get_data numeric http series_id series_name API_KEY = Inr df \<and> \<not> df_empty df)"
    for df
    unfolding dfs set_recorded by force
  have 6: "fs (snd (main numeric convert to_csv http completion_order w)) ?out = Some (File (to_csv m))"
    if m: "merge convert dfs = Inr m"
      and dir: "\<forall>content. fs w OUTPUT_DIR \<noteq> Some (File content)"
      and out: "fs w ?out \<noteq> Some Dir" for m
  proof -
    from dir out 2 obtain w2 where sv: "save_data to_csv m ''economic_indicators.csv'' w' = (None, w2)"
      and f2: "fs w2 ?out = Some (File (to_csv m))"
      using save_data_written [of w' to_csv m] by auto
    have fin: "main numeric convert to_csv http completion_order w = cleanup successful_series w2"
      using 1 m sv by (simp add: finish_def)
    obtain e w3 where cl: "cleanup successful_series w2 = (e, w3)"
      by (cases "cleanup successful_series w2")
    from cleanup_keeps_output [OF cl successful_configured [OF coll sub]]
    have "fs w3 ?out = fs w2 ?out" .
    with fin cl f2 show ?thesis by simp
  qed
  from 1 2 3 4 5 6 show ?thesis by blast
qed

theorem main_isolates_fetch_failures_witness:
  "fs (snd (main (\<lambda>s. s \<noteq> ''.'') (labelwise (\<lambda>c. c)) (\<lambda>df. df)
        (\<lambda>u. if u = url ''UNRATE'' API_KEY
             then Json [''observations'' \<mapsto> [[(''date'', ''2024-06-01''), (''value'', ''4.1'')]]]
             else if u = url ''M2SL'' API_KEY then Json Map.empty
             else Request_failed HTTPError)
        SERIES_IDS \<lparr>fs = Map.empty, log = []\<rparr>))
     (path_join OUTPUT_DIR ''economic_indicators.csv'')
   = Some (File \<lparr>index = [''2024-06-01''], columns = [(''unemployment Ratio'', [Some ''4.1''])]\<rparr>)"
proof -
  let ?http = "\<lambda>u. if u = url ''UNRATE'' API_KEY
             then Json [''observations'' \<mapsto> [[(''date'', ''2024-06-01''), (''value'', ''4.1'')]]]
             else if u = url ''M2SL'' API_KEY then Json Map.empty
             else Request_failed HTTPError"
  let ?df = "\<lparr>index = [Some ''2024-06-01''], columns = [(''unemployment Ratio'', [Some ''4.1''])]\<rparr>"
  let ?m = "\<lparr>index = [''2024-06-01''], columns = [(''unemployment Ratio'', [Some ''4.1''])]\<rparr>"
  let ?w = "\<lparr>fs = Map.empty, log = []\<rparr> :: string dataframe world"
  have 1: "collect (\<lambda>(series_id, series_name). get_data (\<lambda>s. s \<noteq> ''.'') ?http series_id series_name API_KEY)
      SERIES_IDS ([], [], ?w)
      = ([?df], [''unemployment Ratio''],
         ?w\<lparr>log := [Done ''unemployment Ratio'', Failed ''M2'' KeyError]\<rparr>)"
    by (simp add: SERIES_IDS_def get_data_def url_def API_KEY_def DataFrame_def first_seen_def
        rename_columns_def set_index_def labelled_def notna_numeric_def mask_rows_def
        drop_realtime_def df_empty_def empty_frame_def)
  have 2: "set SERIES_IDS \<subseteq> set SERIES_IDS" by simp
  have 3: "merge (labelwise (\<lambda>c. c)) [?df] = Inr ?m"
    by (simp add: merge_def pd_concat_def to_datetime_def labelwise_def sort_index_def drop_realtime_def
        select_columns_def columns_order_def SERIES_IDS_def names_def)
  have 4: "\<forall>content. fs ?w OUTPUT_DIR \<noteq> Some (File content)" by simp
  have 5: "fs ?w (path_join OUTPUT_DIR ''economic_indicators.csv'') \<noteq> Some Dir" by simp
  note inst = main_isolates_fetch_failures [OF 1 2, of "labelwise (\<lambda>c. c)" "\<lambda>df. df"]
  note written = inst [THEN conjunct2, THEN conjunct2, THEN conjunct2, THEN conjunct2, THEN conjunct2]
  from written [rule_format, of ?m] 3 4 5 show ?thesis by blast
qed

section \<open>Independence of the completion order\<close>

lemma mset_concat_map:
  "mset (concat (map f xs)) = (\<Sum>x\<in>#mset xs. mset (f x))"
  by (induction xs) auto

lemma list_eq_of_mset_short:
  assumes "mset xs = mset ys" "length xs \<le> 1"
  shows "xs = ys"
proof (cases xs)
  case Nil
  with assms show ?thesis by simp
next
  case (Cons x xs')
  with assms(2) have xs: "xs = [x]" by simp
  with assms(1) have "mset ys = {#x#}" by simp
  then have "ys = [x]" by (simp add: mset_single_iff_right)
  with xs show ?thesis by simp
qed

lemma concat_map_perm_short:
  assumes "mset xs = mset ys" "length (concat (map f xs)) \<le> 1"
  shows "concat (map f xs) = concat (map f ys)"
proof -
  from assms(1) have "mset (concat (map f xs)) = mset (concat (map f ys))"
    by (simp add: mset_concat_map)
  from list_eq_of_mset_short [OF this assms(2)] show ?thesis .
qed

lemma pd_concat_same:
  assumes "dfs \<noteq> []" "\<forall>df\<in>set dfs. index df = I"
  shows "pd_concat dfs = Inr \<lparr>index = I, columns = concat (map columns dfs)\<rparr>"
proof -
  from assms(1) obtain df0 rest where dfs: "dfs = df0 # rest" by (cases dfs) auto
  with assms(2) have "index df0 = I" "list_all (\<lambda>df. index df = I) rest"
    by (simp_all add: list_all_iff)
  then show ?thesis by (simp add: pd_concat_def dfs)
qed

lemma pd_concat_not_same:
  assumes "dfs \<noteq> []" "\<not> (\<exists>I. \<forall>df\<in>set dfs. index df = I)"
  shows "pd_concat dfs =
     (if \<exists>df\<in>set dfs. \<not> distinct (index df) then Inl InvalidIndexError
      else Inr \<lparr>index = first_seen (concat (map index dfs)),
                columns = concat (map (\<lambda>df. map (\<lambda>(n, c). (n, reindex (index df) c (first_seen (concat (map index dfs)))))
                                     (columns df)) dfs)\<rparr>)"
proof -
  from assms(1) obtain df0 rest where dfs: "dfs = df0 # rest" by (cases dfs) auto
  from assms(2) have "\<not> (\<forall>df\<in>set dfs. index df = index df0)" by blast
  then have "\<not> list_all (\<lambda>df. index df = index df0) dfs" by (simp add: list_all_iff)
  then show ?thesis
    by (simp add: pd_concat_def dfs list_ex_iff Let_def)
qed

text \<open>Sorting a reindexed column does not depend on the order of the new index.\<close>

lemma sorted_reindexed_perm:
  fixes f :: "'l \<Rightarrow> 'd::linorder"
  assumes "mset U1 = mset U2" "inj_on f (set U1)"
  shows "map snd (sort_key fst (zip (map f U1) (map g U1)))
       = map snd (sort_key fst (zip (map f U2) (map g U2)))"
proof -
  let ?h = "\<lambda>l. (f l, g l)"
  have "mset (map ?h U1) = mset (sort_key fst (map ?h U2))" using assms(1) by simp
  moreover have "inj_on fst (set (map ?h U1))"
    using assms(2) by (auto simp: inj_on_def)
  moreover have "sorted (map fst (sort_key fst (map ?h U2)))" by simp
  ultimately have "sort_key fst (map ?h U1) = sort_key fst (map ?h U2)"
    by (rule sort_key_inj_key_eq)
  then show ?thesis by (simp add: zip_map_same)
qed

lemma first_seen_perm:
  assumes "mset xs = mset ys"
  shows "mset (first_seen xs) = mset (first_seen ys)"
proof -
  from assms have "set xs = set ys" by (rule mset_eq_setD)
  then have "set (first_seen xs) = set (first_seen ys)" by simp
  then show ?thesis
    by (simp add: set_eq_iff_mset_eq_distinct [symmetric])
qed

lemma filter_map_column:
  "filter (\<lambda>(n, c). P n) (map (\<lambda>(n, c). (n, g c)) xs) = map (\<lambda>(n, c). (n, g c)) (filter (\<lambda>(n, c). P n) xs)"
  by (induction xs) auto

lemma map_fst_map_column: "map fst (map (\<lambda>(n, c). (n, g c)) xs) = map fst xs"
  by (induction xs) auto

lemma map_fst_filter_key: "map fst (filter (\<lambda>(n, c). P n) xs) = filter P (map fst xs)"
  by (induction xs) auto

lemma map_filter_map_column:
  "map (\<lambda>(n, c). (n, g c)) (filter (\<lambda>(n, c). P n) (map (\<lambda>(n, c). (n, h c)) xs))
     = map (\<lambda>(n, c). (n, g (h c))) (filter (\<lambda>(n, c). P n) xs)"
  by (induction xs) auto

lemma length_filter_filter_le: "length (filter Q (filter P xs)) \<le> length (filter Q xs)"
  by (induction xs) auto

lemma merge_blocks:
  assumes "pd_concat dfs =
      Inr \<lparr>index = J, columns = concat (map (\<lambda>df. map (\<lambda>(n, c). (n, A df c)) (columns df)) dfs)\<rparr>"
  shows "merge (labelwise timestamp) dfs =
    (if list_all (\<lambda>l. timestamp l \<noteq> None) J
     then let D = map (\<lambda>l. the (timestamp l)) J;
              df3 = \<lparr>index = sort D,
                     columns = concat (map (\<lambda>df. map (\<lambda>(n, c). (n, map snd (sort_key fst (zip D (A df c)))))
                                   (filter (\<lambda>(n, c). \<not> prefix ''realtime'' n) (columns df))) dfs)\<rparr>
          in Inr (select_columns (columns_order df3) df3)
     else Inl ValueError)"
proof -
  have "map (\<lambda>(n, c). (n, g c)) (filter (\<lambda>(n, c). \<not> prefix ''realtime'' n)
           (concat (map (\<lambda>df. map (\<lambda>(n, c). (n, A df c)) (columns df)) dfs)))
      = concat (map (\<lambda>df. map (\<lambda>(n, c). (n, g (A df c)))
                                   (filter (\<lambda>(n, c). \<not> prefix ''realtime'' n) (columns df))) dfs)"
    for g :: "cell list \<Rightarrow> cell list"
    by (induction dfs) (simp_all add: map_filter_map_column)
  then show ?thesis
    by (simp add: merge_after_concat [OF assms] Let_def)
qed

lemma length_filter_blocks_le:
  assumes "\<forall>df\<in>set dfs. map fst (F df) = filter P (names df)"
  shows "length (concat (map (\<lambda>df. filter (\<lambda>(n, c). n = col) (F df)) dfs))
           \<le> length (filter (\<lambda>n. n = col) (concat (map names dfs)))"
  using assms
proof (induction dfs)
  case Nil
  show ?case by simp
next
  case (Cons df dfs)
  have "length (filter (\<lambda>(n, c). n = col) (F df)) = length (filter (\<lambda>n. n = col) (map fst (F df)))"
    by (metis length_map map_fst_filter_key)
  also have "\<dots> = length (filter (\<lambda>n. n = col) (filter P (names df)))"
    using Cons.prems by simp
  also have "\<dots> \<le> length (filter (\<lambda>n. n = col) (names df))"
    by (rule length_filter_filter_le)
  finally show ?case using Cons by simp
qed

lemma select_blocks_perm:
  fixes F :: "cell dataframe \<Rightarrow> (string \<times> cell list) list"
  assumes perm: "mset dfs1 = mset dfs2"
    and nm: "\<forall>df\<in>set dfs1. map fst (F df) = filter P (names df)"
    and once: "\<forall>col\<in>snd ` set SERIES_IDS. length (filter (\<lambda>n. n = col) (concat (map names dfs1))) \<le> 1"
  shows "select_columns (columns_order \<lparr>index = J, columns = concat (map F dfs1)\<rparr>)
           \<lparr>index = J, columns = concat (map F dfs1)\<rparr>
       = select_columns (columns_order \<lparr>index = J, columns = concat (map F dfs2)\<rparr>)
           \<lparr>index = J, columns = concat (map F dfs2)\<rparr>"
proof -
  from perm have sets: "set dfs1 = set dfs2" by (rule mset_eq_setD)
  have "set (names \<lparr>index = J, columns = concat (map F dfs1)\<rparr>)
      = set (names \<lparr>index = J, columns = concat (map F dfs2)\<rparr>)"
    by (simp add: names_def sets)
  then have ord: "columns_order \<lparr>index = J, columns = concat (map F dfs1)\<rparr>
      = columns_order \<lparr>index = J, columns = concat (map F dfs2)\<rparr>"
    by (simp add: columns_order_def)
  have "filter (\<lambda>(n, c). n = col) (concat (map F dfs1)) = filter (\<lambda>(n, c). n = col) (concat (map F dfs2))"
    if "col \<in> set (columns_order \<lparr>index = J, columns = concat (map F dfs1)\<rparr>)" for col
  proof -
    from that have "col \<in> snd ` set SERIES_IDS" by (auto simp: columns_order_def)
    with once length_filter_blocks_le [OF nm, of col]
    have "length (concat (map (\<lambda>df. filter (\<lambda>(n, c). n = col) (F df)) dfs1)) \<le> 1"
      by fastforce
    from concat_map_perm_short [OF perm this] show ?thesis
      by (simp add: filter_concat comp_def)
  qed
  then have eq: "map (\<lambda>l. filter (\<lambda>(n, c). n = l) (concat (map F dfs1)))
               (columns_order \<lparr>index = J, columns = concat (map F dfs1)\<rparr>)
           = map (\<lambda>l. filter (\<lambda>(n, c). n = l) (concat (map F dfs2)))
               (columns_order \<lparr>index = J, columns = concat (map F dfs1)\<rparr>)"
    by (intro map_cong) auto
  show ?thesis
    unfolding select_columns_def ord [symmetric] by (simp add: eq)
qed

lemma sort_mset_eq: "mset xs = mset ys \<Longrightarrow> sort xs = sort ys"
  by (rule properties_for_sort) simp_all

lemma map_column_id: "map (\<lambda>(n, c). (n, c)) xs = xs"
  by (induction xs) auto

lemma merge_blocks_conv:
  assumes "pd_concat dfs =
      Inr \<lparr>index = J, columns = concat (map (\<lambda>df. map (\<lambda>(n, c). (n, A df c)) (columns df)) dfs)\<rparr>"
    and "list_all (\<lambda>l. timestamp l \<noteq> None) J"
    and "D = map (\<lambda>l. the (timestamp l)) J"
    and "F = (\<lambda>df. map (\<lambda>(n, c). (n, map snd (sort_key fst (zip D (A df c)))))
                    (filter (\<lambda>(n, c). \<not> prefix ''realtime'' n) (columns df)))"
  shows "merge (labelwise timestamp) dfs =
     Inr (select_columns (columns_order \<lparr>index = sort D, columns = concat (map F dfs)\<rparr>)
            \<lparr>index = sort D, columns = concat (map F dfs)\<rparr>)"
  using assms(2) unfolding assms(3,4) by (simp add: merge_blocks [OF assms(1)] Let_def)

lemma merge_blocks_fail:
  assumes "pd_concat dfs =
      Inr \<lparr>index = J, columns = concat (map (\<lambda>df. map (\<lambda>(n, c). (n, A df c)) (columns df)) dfs)\<rparr>"
    and "\<not> list_all (\<lambda>l. timestamp l \<noteq> None) J"
  shows "merge (labelwise timestamp) dfs = Inl ValueError"
  using assms(2) by (simp add: merge_blocks [OF assms(1)])

lemma names_block:
  "map fst (map (\<lambda>(n, c). (n, g c)) (filter (\<lambda>(n, c). \<not> prefix ''realtime'' n) (columns df)))
     = filter (\<lambda>n. \<not> prefix ''realtime'' n) (names df)"
  by (simp only: map_fst_map_column map_fst_filter_key names_def)

lemma inj_on_the:
  assumes "inj_on f A" "\<forall>x\<in>A. f x \<noteq> None"
  shows "inj_on (\<lambda>x. the (f x)) A"
proof (rule inj_onI)
  fix x y assume x: "x \<in> A" and y: "y \<in> A" and eq: "the (f x) = the (f y)"
  from x y assms(2) have "f x \<noteq> None" "f y \<noteq> None" by blast+
  with eq have "f x = f y" by (cases "f x"; cases "f y") auto
  from inj_onD [OF assms(1) this x y] show "x = y" .
qed

lemma merge_perm:
  fixes timestamp :: "cell \<Rightarrow> 'd::linorder option"
  assumes perm: "mset dfs1 = mset dfs2"
    and once: "\<forall>col\<in>snd ` set SERIES_IDS. length (filter (\<lambda>n. n = col) (concat (map names dfs1))) \<le> 1"
    and inj: "inj_on timestamp {l \<in> (\<Union>df\<in>set dfs1. set (index df)). timestamp l \<noteq> None}"
  shows "merge (labelwise timestamp) dfs1 = merge (labelwise timestamp) dfs2"
proof (cases "dfs1 = []")
  case True
  with perm show ?thesis by simp
next
  case False
  from perm have sets: "set dfs1 = set dfs2" by (rule mset_eq_setD)
  from False perm have ne2: "dfs2 \<noteq> []" by auto
  show ?thesis
  proof (cases "\<exists>I. \<forall>df\<in>set dfs1. index df = I")
    case True
    then obtain I where I: "\<forall>df\<in>set dfs1. index df = I" ..
    then have I2: "\<forall>df\<in>set dfs2. index df = I" unfolding sets .
    define D where "D = map (\<lambda>l. the (timestamp l)) I"
    define F :: "cell dataframe \<Rightarrow> (string \<times> cell list) list"
      where "F = (\<lambda>df. map (\<lambda>(n, c). (n, map snd (sort_key fst (zip D c))))
                    (filter (\<lambda>(n, c). \<not> prefix ''realtime'' n) (columns df)))"
    have c1: "pd_concat dfs1 = Inr \<lparr>index = I,
        columns = concat (map (\<lambda>df. map (\<lambda>(n, c). (n, c)) (columns df)) dfs1)\<rparr>"
      by (simp only: map_column_id pd_concat_same [OF False I])
    have c2: "pd_concat dfs2 = Inr \<lparr>index = I,
        columns = concat (map (\<lambda>df. map (\<lambda>(n, c). (n, c)) (columns df)) dfs2)\<rparr>"
      by (simp only: map_column_id pd_concat_same [OF ne2 I2])
    show ?thesis
    proof (cases "list_all (\<lambda>l. timestamp l \<noteq> None) I")
      case True
      have nm: "\<forall>df\<in>set dfs1. map fst (F df) = filter (\<lambda>n. \<not> prefix ''realtime'' n) (names df)"
        unfolding F_def by (intro ballI names_block)
      from select_blocks_perm [OF perm nm once, of "sort D"]
        merge_blocks_conv [OF c1 True D_def F_def] merge_blocks_conv [OF c2 True D_def F_def]
      show ?thesis by (simp only:)
    next
      case False
      from merge_blocks_fail [OF c1 False] merge_blocks_fail [OF c2 False]
      show ?thesis by (simp only:)
    qed
  next
    case ns: False
    then have ns2: "\<not> (\<exists>I. \<forall>df\<in>set dfs2. index df = I)" unfolding sets .
    show ?thesis
    proof (cases "\<exists>df\<in>set dfs1. \<not> distinct (index df)")
      case True
      then have "\<exists>df\<in>set dfs2. \<not> distinct (index df)" unfolding sets .
      with True show ?thesis
        by (simp add: merge_def pd_concat_not_same [OF False ns] pd_concat_not_same [OF ne2 ns2])
    next
      case dist: False
      then have dist2: "\<not> (\<exists>df\<in>set dfs2. \<not> distinct (index df))" unfolding sets .
      define U1 where "U1 = first_seen (concat (map index dfs1))"
      define U2 where "U2 = first_seen (concat (map index dfs2))"
      have "mset (concat (map index dfs1)) = mset (concat (map index dfs2))"
        using perm by (simp add: mset_concat_map)
      then have U: "mset U1 = mset U2" unfolding U1_def U2_def by (rule first_seen_perm)
      then have setU: "set U1 = set U2" by (rule mset_eq_setD)
      have setU1: "set U1 = (\<Union>df\<in>set dfs1. set (index df))"
        by (simp add: U1_def)
      have c1: "pd_concat dfs1 = Inr \<lparr>index = U1,
          columns = concat (map (\<lambda>df. map (\<lambda>(n, c). (n, reindex (index df) c U1)) (columns df)) dfs1)\<rparr>"
        using dist unfolding U1_def by (simp only: pd_concat_not_same [OF False ns] if_False)
      have c2: "pd_concat dfs2 = Inr \<lparr>index = U2,
          columns = concat (map (\<lambda>df. map (\<lambda>(n, c). (n, reindex (index df) c U2)) (columns df)) dfs2)\<rparr>"
        using dist2 unfolding U2_def by (simp only: pd_concat_not_same [OF ne2 ns2] if_False)
      have la: "list_all (\<lambda>l. timestamp l \<noteq> None) U2 \<longleftrightarrow> list_all (\<lambda>l. timestamp l \<noteq> None) U1"
        unfolding list_all_iff setU ..
      show ?thesis
      proof (cases "list_all (\<lambda>l. timestamp l \<noteq> None) U1")
        case conv: True
        then have conv2: "list_all (\<lambda>l. timestamp l \<noteq> None) U2"
          using la by simp
        define D1 where "D1 = map (\<lambda>l. the (timestamp l)) U1"
        define D2 where "D2 = map (\<lambda>l. the (timestamp l)) U2"
        define F1 :: "cell dataframe \<Rightarrow> (string \<times> cell list) list"
          where "F1 = (\<lambda>df. map (\<lambda>(n, c). (n, map snd (sort_key fst (zip D1 (reindex (index df) c U1)))))
                          (filter (\<lambda>(n, c). \<not> prefix ''realtime'' n) (columns df)))"
        define F2 :: "cell dataframe \<Rightarrow> (string \<times> cell list) list"
          where "F2 = (\<lambda>df. map (\<lambda>(n, c). (n, map snd (sort_key fst (zip D2 (reindex (index df) c U2)))))
                          (filter (\<lambda>(n, c). \<not> prefix ''realtime'' n) (columns df)))"
        have all: "\<forall>l\<in>set U1. timestamp l \<noteq> None"
          using conv by (simp only: list_all_iff)
        then have "{l \<in> (\<Union>df\<in>set dfs1. set (index df)). timestamp l \<noteq> None} = set U1"
          unfolding setU1 by blast
        with inj have "inj_on timestamp (set U1)" by (simp only:)
        from inj_on_the [OF this all] have injf: "inj_on (\<lambda>l. the (timestamp l)) (set U1)" .
        have col: "map snd (sort_key fst (zip D1 (reindex idx c U1)))
              = map snd (sort_key fst (zip D2 (reindex idx c U2)))" for idx c
          unfolding reindex_def D1_def D2_def by (rule sorted_reindexed_perm [OF U injf])
        have F: "F2 = F1"
          unfolding F1_def F2_def by (simp only: col)
        have srt: "sort D2 = sort D1"
          unfolding D1_def D2_def using U by (intro sort_mset_eq) simp
        have nm: "\<forall>df\<in>set dfs1. map fst (F1 df) = filter (\<lambda>n. \<not> prefix ''realtime'' n) (names df)"
          unfolding F1_def by (intro ballI names_block)
        from select_blocks_perm [OF perm nm once, of "sort D1"]
          merge_blocks_conv [OF c1 conv D1_def F1_def]
          merge_blocks_conv [OF c2 conv2 D2_def F2_def, unfolded F srt]
        show ?thesis by (simp only:)
      next
        case nconv: False
        then have "\<not> list_all (\<lambda>l. timestamp l \<noteq> None) U2"
          using la by simp
        from merge_blocks_fail [OF c1 nconv] merge_blocks_fail [OF c2 this]
        show ?thesis by (simp only:)
      qed
    qed
  qed
qed

lemma length_labelled: "length (labelled key df) = length (filter (\<lambda>n. n = key) (names df))"
  by (simp add: labelled_def names_def map_fst_filter_key [symmetric])

lemma names_set_index:
  "set_index key df = Inr df' \<Longrightarrow> names df' = filter (\<lambda>n. n \<noteq> key) (names df)"
  by (auto simp: set_index_def names_def map_fst_filter_key [symmetric] split: list.splits)

lemma names_rename_columns:
  "names (rename_columns old new df) = map (\<lambda>n. if n = old then new else n) (names df)"
  by (simp add: names_def rename_columns_def comp_def case_prod_unfold)

lemma set_response_fields:
  "resp = Json data \<Longrightarrow> data ''observations'' = Some records \<Longrightarrow>
     set (response_fields resp) = set (names (DataFrame records))"
  by (simp add: response_fields_def set_names_DataFrame)

lemma get_data_names:
  assumes "get_data numeric http series_id series_name api_key = Inr df"
  shows "set (names df) \<subseteq> insert series_name (set (response_fields (http (url series_id api_key))))"
    and "length (filter (\<lambda>n. n = series_name) (names df)) \<le> 1"
proof -
  from get_data_Inr_cases [OF assms]
  have "set (names df) \<subseteq> insert series_name (set (response_fields (http (url series_id api_key))))
      \<and> length (filter (\<lambda>n. n = series_name) (names df)) \<le> 1"
  proof (elim disjE exE conjE)
    assume "df = empty_frame"
    then show ?thesis by simp
  next
    fix data records df0 col
    assume resp: "http (url series_id api_key) = Json data" and obs: "data ''observations'' = Some records"
      and si: "set_index ''date'' (rename_columns ''value'' series_name (DataFrame records)) = Inr df0"
      and lab: "labelled series_name df0 = [col]"
      and df: "df = drop_realtime (mask_rows (notna_numeric numeric col) df0)"
    have n: "names df = filter (\<lambda>n. \<not> prefix ''realtime'' n) (names df0)"
      by (simp add: df names_drop_realtime)
    have "set (names df0) \<subseteq> insert series_name (set (names (DataFrame records)))"
      by (auto simp: names_set_index [OF si] names_rename_columns)
    then have 1: "set (names df) \<subseteq> insert series_name (set (response_fields (http (url series_id api_key))))"
      unfolding set_response_fields [OF resp obs] n by auto
    have "length (filter (\<lambda>n. n = series_name) (names df0)) = 1"
      using length_labelled [of series_name df0] lab by simp
    then have 2: "length (filter (\<lambda>n. n = series_name) (names df)) \<le> 1"
      unfolding n using length_filter_filter_le [of "\<lambda>n. n = series_name" "\<lambda>n. \<not> prefix ''realtime'' n" "names df0"]
      by simp
    from 1 2 show ?thesis ..
  qed
  then show "set (names df) \<subseteq> insert series_name (set (response_fields (http (url series_id api_key))))"
    and "length (filter (\<lambda>n. n = series_name) (names df)) \<le> 1"
    by blast+
qed

lemma get_data_index_subset:
  assumes "get_data numeric http series_id series_name api_key = Inr df"
  shows "set (index df) \<subseteq> set (response_dates (http (url series_id api_key)))"
proof (cases "http (url series_id api_key)")
  case (Request_failed e)
  with assms have "df = empty_frame" by (simp add: get_data_def)
  then show ?thesis by (simp add: empty_frame_def)
next
  case (Json data)
  with assms obtain records where obs: "data ''observations'' = Some records"
    by (auto simp: get_data_def split: option.splits)
  from get_data_index [OF assms Json obs] obtain bs
    where "index df = keep bs (map (\<lambda>r. map_of r ''date'') records)" ..
  then show ?thesis
    using set_keep_subset [of bs "map (\<lambda>r. map_of r ''date'') records"]
    by (simp add: Json obs response_dates_def)
qed

lemma length_concat_once:
  assumes "distinct (map snd xs)"
    and "\<forall>s\<in>set xs. snd s \<noteq> col \<longrightarrow> g s = []"
    and "\<forall>s\<in>set xs. length (g s) \<le> 1"
  shows "length (concat (map g xs)) \<le> 1"
  using assms
proof (induction xs)
  case Nil
  show ?case by simp
next
  case (Cons s xs)
  show ?case
  proof (cases "snd s = col")
    case True
    from Cons.prems(1) have "snd s \<notin> snd ` set xs" by simp
    with True have "\<forall>t\<in>set xs. snd t \<noteq> col" by blast
    with Cons.prems(2) have "\<forall>t\<in>set xs. g t = []" by simp
    then have e: "concat (map g xs) = []" by simp
    show ?thesis
      unfolding list.map concat.simps e using Cons.prems(3) by simp
  next
    case False
    with Cons.prems(2) have "g s = []" by simp
    with Cons show ?thesis by simp
  qed
qed

lemma save_data_fs_only:
  assumes "fs w1 = fs w2"
  shows "fst (save_data to_csv df filename w1) = fst (save_data to_csv df filename w2)
    \<and> fs (snd (save_data to_csv df filename w1)) = fs (snd (save_data to_csv df filename w2))"
  using assms by (auto simp: save_data_def Let_def split: option.splits node.splits)

lemma cleanup_fst:
  "fst (cleanup ns w) = (if list_ex (\<lambda>n. fs w (series_file n) = Some Dir) ns then Some OSError else None)"
proof (induction ns arbitrary: w)
  case Nil
  show ?case by simp
next
  case (Cons n ns)
  show ?case
  proof (cases "fs w (series_file n)")
    case None
    then show ?thesis by (simp add: cleanup_unfold Cons.IH)
  next
    case (Some node)
    show ?thesis
    proof (cases node)
      case Dir
      with Some show ?thesis by (simp add: cleanup_unfold)
    next
      case (File content)
      let ?w2 = "w\<lparr>fs := (fs w)(series_file n := None), log := log w @ [Deleted (series_file n)]\<rparr>"
      have "(fs ?w2 p = Some Dir) = (fs w p = Some Dir)" for p
        using Some File by simp
      then have "list_ex (\<lambda>n. fs ?w2 (series_file n) = Some Dir) ns
          = list_ex (\<lambda>n. fs w (series_file n) = Some Dir) ns"
        by simp
      with Some File show ?thesis by (simp add: cleanup_unfold Cons.IH)
    qed
  qed
qed

lemma finish_perm:
  assumes m: "merge convert1 dfs1 = merge convert2 dfs2"
    and f: "fs w1 = fs w2"
    and s: "set succ1 = set succ2"
    and c: "set succ1 \<subseteq> snd ` set SERIES_IDS"
  shows "fst (finish convert1 to_csv (dfs1, succ1, w1)) = fst (finish convert2 to_csv (dfs2, succ2, w2))
    \<and> fs (snd (finish convert1 to_csv (dfs1, succ1, w1))) (path_join OUTPUT_DIR ''economic_indicators.csv'')
      = fs (snd (finish convert2 to_csv (dfs2, succ2, w2))) (path_join OUTPUT_DIR ''economic_indicators.csv'')"
proof (cases "merge convert2 dfs2")
  case (Inl e)
  with m f show ?thesis by (simp add: finish_def)
next
  case (Inr merged_df)
  let ?out = "path_join OUTPUT_DIR ''economic_indicators.csv''"
  obtain e1 v1 where s1: "save_data to_csv merged_df ''economic_indicators.csv'' w1 = (e1, v1)"
    by (cases "save_data to_csv merged_df ''economic_indicators.csv'' w1")
  obtain e2 v2 where s2: "save_data to_csv merged_df ''economic_indicators.csv'' w2 = (e2, v2)"
    by (cases "save_data to_csv merged_df ''economic_indicators.csv'' w2")
  from save_data_fs_only [OF f, of to_csv merged_df "''economic_indicators.csv''"] s1 s2
  have e: "e1 = e2" and v: "fs v1 = fs v2" by simp_all
  show ?thesis
  proof (cases e2)
    case (Some x)
    with e v m Inr s1 s2 show ?thesis by (simp add: finish_def)
  next
    case None
    obtain x1 u1 where c1: "cleanup succ1 v1 = (x1, u1)" by (cases "cleanup succ1 v1")
    obtain x2 u2 where c2: "cleanup succ2 v2 = (x2, u2)" by (cases "cleanup succ2 v2")
    have "fst (cleanup succ1 v1) = fst (cleanup succ2 v2)"
      unfolding cleanup_fst list_ex_iff s v ..
    with c1 c2 have x: "x1 = x2" by simp
    from cleanup_keeps_output [OF c1 c] cleanup_keeps_output [OF c2] c s v
    have "fs u1 ?out = fs u2 ?out" by simp
    with x None e m Inr s1 s2 c1 c2 show ?thesis by (simp add: finish_def)
  qed
qed

lemma concat_map_names_recorded:
  "concat (map names (concat (map h xs))) = concat (map (\<lambda>s. concat (map names (h s))) xs)"
  by (induction xs) auto

lemma recorded_once:
  fixes result :: "string \<times> string \<Rightarrow> exn + cell dataframe"
  assumes order: "mset order = mset SERIES_IDS"
    and res: "result = (\<lambda>(series_id, series_name). get_data numeric http series_id series_name API_KEY)"
    and fields: "\<forall>(series_id, series_name)\<in>set SERIES_IDS.
        \<forall>k\<in>set (response_fields (http (url series_id API_KEY))). k \<notin> snd ` set SERIES_IDS"
    and dfs: "dfs = concat (map (\<lambda>s. case result s of Inl e \<Rightarrow> [] | Inr df \<Rightarrow> [df])
                       (filter (completed_nonempty result) order))"
  shows "\<forall>col\<in>snd ` set SERIES_IDS. length (filter (\<lambda>n. n = col) (concat (map names dfs))) \<le> 1"
proof
  fix col assume col: "col \<in> snd ` set SERIES_IDS"
  let ?h = "\<lambda>s. case result s of Inl e \<Rightarrow> [] | Inr df \<Rightarrow> [df]"
  let ?g = "\<lambda>s. filter (\<lambda>n. n = col) (concat (map names (?h s)))"
  let ?xs = "filter (completed_nonempty result) order"
  from order have set_order: "set order = set SERIES_IDS" by (rule mset_eq_setD)
  from order have "mset (map snd order) = mset (map snd SERIES_IDS)" by simp
  from mset_eq_imp_distinct_iff [OF this] distinct_configured have "distinct (map snd order)" by simp
  then have d: "distinct (map snd ?xs)" by (rule distinct_map_filter)
  have g: "(snd s \<noteq> col \<longrightarrow> ?g s = []) \<and> length (?g s) \<le> 1" if s: "s \<in> set ?xs" for s
  proof -
    obtain series_id series_name where sn: "s = (series_id, series_name)" by (cases s)
    from s sn set_order have cfg: "(series_id, series_name) \<in> set SERIES_IDS" by auto
    from s obtain df where r: "result s = Inr df"
      by (auto simp: completed_nonempty_iff)
    then have gd: "get_data numeric http series_id series_name API_KEY = Inr df"
      by (simp add: res sn)
    have gs: "?g s = filter (\<lambda>n. n = col) (names df)" by (simp add: r)
    from fields cfg col have "col \<notin> set (response_fields (http (url series_id API_KEY)))"
      by blast
    with get_data_names(1) [OF gd] have in_names: "col \<in> set (names df) \<Longrightarrow> col = series_name"
      by blast
    have 1: "?g s = []" if "snd s \<noteq> col"
    proof -
      from that sn in_names have "col \<notin> set (names df)" by auto
      then show ?thesis unfolding gs filter_empty_conv by blast
    qed
    have 2: "length (?g s) \<le> 1"
    proof (cases "col = series_name")
      case True
      with get_data_names(2) [OF gd] show ?thesis unfolding gs by simp
    next
      case False
      with sn have "snd s \<noteq> col" by simp
      from 1 [OF this] show ?thesis by simp
    qed
    from 1 2 show ?thesis by blast
  qed
  have "length (concat (map ?g ?xs)) \<le> 1"
  proof (rule length_concat_once [OF d])
    show "\<forall>s\<in>set ?xs. snd s \<noteq> col \<longrightarrow> ?g s = []" using g by blast
    show "\<forall>s\<in>set ?xs. length (?g s) \<le> 1" using g by blast
  qed
  moreover have "filter (\<lambda>n. n = col) (concat (map names dfs)) = concat (map ?g ?xs)"
    unfolding dfs concat_map_names_recorded by (simp add: filter_concat comp_def)
  ultimately show "length (filter (\<lambda>n. n = col) (concat (map names dfs))) \<le> 1" by simp
qed

lemma recorded_labels:
  fixes result :: "string \<times> string \<Rightarrow> exn + cell dataframe"
  assumes order: "set order = set SERIES_IDS"
    and res: "result = (\<lambda>(series_id, series_name). get_data numeric http series_id series_name API_KEY)"
    and dfs: "dfs = concat (map (\<lambda>s. case result s of Inl e \<Rightarrow> [] | Inr df \<Rightarrow> [df])
                       (filter (completed_nonempty result) order))"
  shows "(\<Union>df\<in>set dfs. set (index df))
     \<subseteq> (\<Union>(series_id, series_name)\<in>set SERIES_IDS. set (response_dates (http (url series_id API_KEY))))"
proof
  fix l assume "l \<in> (\<Union>df\<in>set dfs. set (index df))"
  then obtain df where df: "df \<in> set dfs" and l: "l \<in> set (index df)" by blast
  from df obtain s where s: "s \<in> set order" and r: "result s = Inr df"
    unfolding dfs set_recorded by blast
  obtain series_id series_name where sn: "s = (series_id, series_name)" by (cases s)
  from r have "get_data numeric http series_id series_name API_KEY = Inr df"
    by (simp add: res sn)
  from get_data_index_subset [OF this] l
  have "l \<in> set (response_dates (http (url series_id API_KEY)))" by blast
  with s sn order
  show "l \<in> (\<Union>(series_id, series_name)\<in>set SERIES_IDS. set (response_dates (http (url series_id API_KEY))))"
    by blast
qed

lemma index_pd_concat_subset:
  "pd_concat dfs = Inr df1 \<Longrightarrow> set (index df1) \<subseteq> (\<Union>df\<in>set dfs. set (index df))"
  by (auto simp: pd_concat_def Let_def split: list.splits if_splits)

lemma merge_labelwise:
  assumes "\<forall>ls. set ls \<subseteq> D \<longrightarrow> convert ls = labelwise timestamp ls"
    and "(\<Union>df\<in>set dfs. set (index df)) \<subseteq> D"
  shows "merge convert dfs = merge (labelwise timestamp) dfs"
proof (cases "pd_concat dfs")
  case (Inl e)
  then show ?thesis by (simp only: merge_concat_fails)
next
  case (Inr df1)
  from index_pd_concat_subset [OF Inr] assms(2) have "set (index df1) \<subseteq> D" by blast
  with assms(1) have "convert (index df1) = labelwise timestamp (index df1)" by blast
  with Inr show ?thesis by (rule merge_cong)
qed

lemma output_not_dir: "path_join OUTPUT_DIR ''economic_indicators.csv'' \<noteq> OUTPUT_DIR"
  by (simp add: path_join_OUTPUT_DIR) (simp add: OUTPUT_DIR_def)

lemma save_data_output:
  "save_data to_csv df ''economic_indicators.csv'' w =
     (if \<exists>content. fs w OUTPUT_DIR = Some (File content) then (Some OSError, w)
      else if fs w (path_join OUTPUT_DIR ''economic_indicators.csv'') = Some Dir
      then (Some OSError, w\<lparr>fs := (fs w)(OUTPUT_DIR \<mapsto> Dir)\<rparr>)
      else (None, w\<lparr>fs := (fs w)(OUTPUT_DIR \<mapsto> Dir),
                     fs := ((fs w)(OUTPUT_DIR \<mapsto> Dir))
                             (path_join OUTPUT_DIR ''economic_indicators.csv'' \<mapsto> File (to_csv df)),
                     log := log w @ [Saved (path_join OUTPUT_DIR ''economic_indicators.csv'')]\<rparr>))"
proof -
  let ?out = "path_join OUTPUT_DIR ''economic_indicators.csv''"
  let ?files = "(fs w)(OUTPUT_DIR \<mapsto> Dir)"
  have "can_write ?files ?out \<longleftrightarrow> fs w ?out \<noteq> Some Dir"
  proof
    assume "can_write ?files ?out"
    then show "fs w ?out \<noteq> Some Dir"
      using output_not_dir by (simp add: can_write_def)
  next
    assume "fs w ?out \<noteq> Some Dir"
    with output_not_dir have "?files ?out \<noteq> Some Dir" by simp
    moreover have "?files OUTPUT_DIR = Some Dir" by simp
    ultimately show "can_write ?files ?out" by (rule can_write_output [rotated])
  qed
  then show ?thesis
    by (cases "fs w OUTPUT_DIR") (auto simp: save_data_def Let_def split: node.splits)
qed

lemma cleanup_dirs:
  assumes "cleanup ns w = (e, w')"
  shows "fs w' p = Some Dir \<longleftrightarrow> fs w p = Some Dir"
  using cleanup_changes [OF assms, of p] by auto

lemma finish_again:
  assumes m: "merge convert1 dfs1 = merge convert2 dfs2"
    and s: "set succ1 = set succ2"
    and c: "set succ1 \<subseteq> snd ` set SERIES_IDS"
    and f: "fs w2 = fs (snd (finish convert1 to_csv (dfs1, succ1, w1)))"
  shows "fst (finish convert2 to_csv (dfs2, succ2, w2)) = fst (finish convert1 to_csv (dfs1, succ1, w1))
    \<and> fs (snd (finish convert2 to_csv (dfs2, succ2, w2))) (path_join OUTPUT_DIR ''economic_indicators.csv'')
      = fs (snd (finish convert1 to_csv (dfs1, succ1, w1))) (path_join OUTPUT_DIR ''economic_indicators.csv'')"
proof (cases "merge convert2 dfs2")
  case (Inl e)
  with m f show ?thesis by (simp add: finish_def)
next
  case (Inr merged_df)
  let ?out = "path_join OUTPUT_DIR ''economic_indicators.csv''"
  let ?F = "''economic_indicators.csv''"
  have fin1: "finish convert1 to_csv (dfs1, succ1, w1) =
      (case save_data to_csv merged_df ?F w1 of
         (Some e, w') \<Rightarrow> (Some e, w') | (None, w') \<Rightarrow> cleanup succ1 w')"
    using m Inr by (simp add: finish_def)
  have fin2: "finish convert2 to_csv (dfs2, succ2, w2) =
      (case save_data to_csv merged_df ?F w2 of
         (Some e, w') \<Rightarrow> (Some e, w') | (None, w') \<Rightarrow> cleanup succ2 w')"
    using Inr by (simp add: finish_def)
  show ?thesis
  proof (cases "\<exists>content. fs w1 OUTPUT_DIR = Some (File content)")
    case True
    then have r1: "finish convert1 to_csv (dfs1, succ1, w1) = (Some OSError, w1)"
      by (simp add: fin1 save_data_output)
    with f have "fs w2 = fs w1" by simp
    with True have "finish convert2 to_csv (dfs2, succ2, w2) = (Some OSError, w2)"
      by (simp add: fin2 save_data_output)
    with r1 \<open>fs w2 = fs w1\<close> show ?thesis by simp
  next
    case nofile: False
    show ?thesis
    proof (cases "fs w1 ?out = Some Dir")
      case True
      with nofile have r1: "finish convert1 to_csv (dfs1, succ1, w1)
          = (Some OSError, w1\<lparr>fs := (fs w1)(OUTPUT_DIR \<mapsto> Dir)\<rparr>)"
        by (simp add: fin1 save_data_output)
      with f have f2: "fs w2 = (fs w1)(OUTPUT_DIR \<mapsto> Dir)" by simp
      then have "fs w2 OUTPUT_DIR = Some Dir" "fs w2 ?out = Some Dir"
        using True output_not_dir by simp_all
      then have "finish convert2 to_csv (dfs2, succ2, w2)
          = (Some OSError, w2\<lparr>fs := (fs w2)(OUTPUT_DIR \<mapsto> Dir)\<rparr>)"
        by (simp add: fin2 save_data_output)
      with r1 True output_not_dir f2 show ?thesis by simp
    next
      case nodir: False
      define v1 where "v1 = w1\<lparr>fs := (fs w1)(OUTPUT_DIR \<mapsto> Dir),
                     fs := ((fs w1)(OUTPUT_DIR \<mapsto> Dir))(?out \<mapsto> File (to_csv merged_df)),
                     log := log w1 @ [Saved ?out]\<rparr>"
      define v2 where "v2 = w2\<lparr>fs := (fs w2)(OUTPUT_DIR \<mapsto> Dir),
                     fs := ((fs w2)(OUTPUT_DIR \<mapsto> Dir))(?out \<mapsto> File (to_csv merged_df)),
                     log := log w2 @ [Saved ?out]\<rparr>"
      have fv1: "fs v1 = ((fs w1)(OUTPUT_DIR \<mapsto> Dir))(?out \<mapsto> File (to_csv merged_df))"
        by (simp add: v1_def)
      have fv2: "fs v2 = ((fs w2)(OUTPUT_DIR \<mapsto> Dir))(?out \<mapsto> File (to_csv merged_df))"
        by (simp add: v2_def)
      from nofile nodir have r1: "finish convert1 to_csv (dfs1, succ1, w1) = cleanup succ1 v1"
        by (simp add: fin1 save_data_output v1_def)
      obtain x1 u1 where c1: "cleanup succ1 v1 = (x1, u1)" by (cases "cleanup succ1 v1")
      from f r1 c1 have f2: "fs w2 = fs u1" by simp
      have out1: "fs u1 ?out = Some (File (to_csv merged_df))"
        using cleanup_keeps_output [OF c1 c] by (simp add: fv1)
      have dir1: "fs u1 p = Some Dir \<longleftrightarrow> fs v1 p = Some Dir" for p
        by (rule cleanup_dirs [OF c1])
      have "fs v1 OUTPUT_DIR = Some Dir"
        using output_not_dir by (simp add: fv1)
      with dir1 have "fs w2 OUTPUT_DIR = Some Dir" by (simp add: f2)
      moreover have "fs w2 ?out \<noteq> Some Dir" by (simp add: f2 out1)
      ultimately have r2: "finish convert2 to_csv (dfs2, succ2, w2) = cleanup succ2 v2"
        by (simp add: fin2 save_data_output v2_def)
      obtain x2 u2 where c2: "cleanup succ2 v2 = (x2, u2)" by (cases "cleanup succ2 v2")
      from c s have c': "set succ2 \<subseteq> snd ` set SERIES_IDS" by simp
      have out2: "fs u2 ?out = Some (File (to_csv merged_df))"
        using cleanup_keeps_output [OF c2 c'] by (simp add: fv2)
      have "fs v2 p = Some Dir \<longleftrightarrow> fs v1 p = Some Dir" for p
      proof (cases "p = ?out \<or> p = OUTPUT_DIR")
        case True
        then show ?thesis using output_not_dir by (auto simp: fv1 fv2)
      next
        case False
        then have "fs v2 p = fs w2 p" "fs v1 p = fs w1 p" by (simp_all add: fv1 fv2)
        moreover have "fs v1 p = fs w1 p" using False by (simp add: fv1)
        ultimately show ?thesis using dir1 [of p] by (simp add: f2)
      qed
      then have "list_ex (\<lambda>n. fs v2 (series_file n) = Some Dir) succ2
          = list_ex (\<lambda>n. fs v1 (series_file n) = Some Dir) succ1"
        unfolding list_ex_iff s by simp
      then have "fst (cleanup succ2 v2) = fst (cleanup succ1 v1)"
        by (simp only: cleanup_fst)
      with c1 c2 have "x2 = x1" by simp
      with r1 r2 c1 c2 out1 out2 show ?thesis by simp
    qed
  qed
qed

text \<open>
  Claim C8 as amended.  Take responses in which no observation field is named
  like a configured series and whose dates pandas converts label by label,
  in both runs alike and whatever the other labels of the index and their
  order are (dates of one format that do not depend on the clock, as the ISO
  dates of the service), different dates to different timestamps.  Then a
  second run, whatever the orders in which the fetches of the two runs
  complete, ends the way the first run ended (normally, or with the same
  exception) and leaves in \<open>economic_indicators.csv\<close> the contents that the
  first run left; the second run may start from the file system from which
  the first started or from the one that the first has left.
\<close>

theorem main_order_independent:
  fixes timestamp :: "cell \<Rightarrow> 'd::linorder option"
  assumes order1: "mset order1 = mset SERIES_IDS"
    and order2: "mset order2 = mset SERIES_IDS"
    and fields: "\<forall>(series_id, series_name)\<in>set SERIES_IDS.
        \<forall>k\<in>set (response_fields (http (url series_id API_KEY))). k \<notin> snd ` set SERIES_IDS"
    and dates: "inj_on timestamp
        {l \<in> (\<Union>(series_id, series_name)\<in>set SERIES_IDS.
                 set (response_dates (http (url series_id API_KEY)))). timestamp l \<noteq> None}"
    and conv1: "\<forall>ls. set ls \<subseteq> (\<Union>(series_id, series_name)\<in>set SERIES_IDS.
                   set (response_dates (http (url series_id API_KEY))))
                 \<longrightarrow> convert1 ls = labelwise timestamp ls"
    and conv2: "\<forall>ls. set ls \<subseteq> (\<Union>(series_id, series_name)\<in>set SERIES_IDS.
                   set (response_dates (http (url series_id API_KEY))))
                 \<longrightarrow> convert2 ls = labelwise timestamp ls"
    and start: "fs w2 = fs w1 \<or> fs w2 = fs (snd (main numeric convert1 to_csv http order1 w1))"
  shows "fst (main numeric convert2 to_csv http order2 w2) = fst (main numeric convert1 to_csv http order1 w1)
    \<and> fs (snd (main numeric convert2 to_csv http order2 w2)) (path_join OUTPUT_DIR ''economic_indicators.csv'')
      = fs (snd (main numeric convert1 to_csv http order1 w1)) (path_join OUTPUT_DIR ''economic_indicators.csv'')"
proof -
  let ?D = "\<Union>(series_id, series_name)\<in>set SERIES_IDS.
                   set (response_dates (http (url series_id API_KEY)))"
  define result :: "string \<times> string \<Rightarrow> exn + cell dataframe"
    where "result = (\<lambda>(series_id, series_name). get_data numeric http series_id series_name API_KEY)"
  define recorded where "recorded = (\<lambda>order. concat (map (\<lambda>s. case result s of Inl e \<Rightarrow> [] | Inr df \<Rightarrow> [df])
                       (filter (completed_nonempty result) order)))"
  define marked where "marked = (\<lambda>order. map snd (filter (completed_nonempty result) order))"
  from order1 order2 have perm: "mset order1 = mset order2" by simp
  from order1 have set1: "set order1 = set SERIES_IDS" by (rule mset_eq_setD)
  from order2 have set2: "set order2 = set SERIES_IDS" by (rule mset_eq_setD)
  have run: "\<exists>w'. main numeric convert to_csv http order w
        = finish convert to_csv (recorded order, marked order, w') \<and> fs w' = fs w"
    for order w and convert :: "cell list \<Rightarrow> 'd list option"
    unfolding main_def result_def [symmetric] recorded_def marked_def collect_eq append_Nil
    by (intro exI conjI, rule refl) simp
  from run [of convert1 order1 w1] obtain v1 where m1: "main numeric convert1 to_csv http order1 w1
        = finish convert1 to_csv (recorded order1, marked order1, v1)" and f1: "fs v1 = fs w1"
    by blast
  from run [of convert2 order2 w2] obtain v2 where m2: "main numeric convert2 to_csv http order2 w2
        = finish convert2 to_csv (recorded order2, marked order2, v2)" and f2: "fs v2 = fs w2"
    by blast
  have p: "mset (recorded order1) = mset (recorded order2)"
    unfolding recorded_def mset_concat_map using perm by simp
  have once: "\<forall>col\<in>snd ` set SERIES_IDS.
      length (filter (\<lambda>n. n = col) (concat (map names (recorded order1)))) \<le> 1"
    by (rule recorded_once [OF order1 result_def fields]) (simp add: recorded_def)
  have l1: "(\<Union>df\<in>set (recorded order1). set (index df)) \<subseteq> ?D"
    by (rule recorded_labels [OF set1 result_def]) (simp add: recorded_def)
  have l2: "(\<Union>df\<in>set (recorded order2). set (index df)) \<subseteq> ?D"
    by (rule recorded_labels [OF set2 result_def]) (simp add: recorded_def)
  from l1 have "{l \<in> (\<Union>df\<in>set (recorded order1). set (index df)). timestamp l \<noteq> None}
     \<subseteq> {l \<in> ?D. timestamp l \<noteq> None}"
    by blast
  from inj_on_subset [OF dates this]
  have inj: "inj_on timestamp {l \<in> (\<Union>df\<in>set (recorded order1). set (index df)). timestamp l \<noteq> None}" .
  have "merge convert1 (recorded order1) = merge (labelwise timestamp) (recorded order1)"
    by (rule merge_labelwise [OF conv1 l1])
  also have "\<dots> = merge (labelwise timestamp) (recorded order2)"
    by (rule merge_perm [OF p once inj])
  also have "\<dots> = merge convert2 (recorded order2)"
    by (rule merge_labelwise [OF conv2 l2, symmetric])
  finally have mg: "merge convert1 (recorded order1) = merge convert2 (recorded order2)" .
  have sm: "set (marked order1) = set (marked order2)"
    unfolding marked_def using set1 set2 by simp
  have cf: "set (marked order1) \<subseteq> snd ` set SERIES_IDS"
    unfolding marked_def using set1 by auto
  from start show ?thesis
  proof
    assume "fs w2 = fs w1"
    with f1 f2 have "fs v1 = fs v2" by simp
    from finish_perm [OF mg this sm cf, of to_csv] m1 m2
    show ?thesis by simp
  next
    assume "fs w2 = fs (snd (main numeric convert1 to_csv http order1 w1))"
    with f2 m1 have "fs v2 = fs (snd (finish convert1 to_csv (recorded order1, marked order1, v1)))"
      by simp
    from finish_again [OF mg sm cf this] m1 m2
    show ?thesis by simp
  qed
qed

theorem main_order_independent_witness:
  "fst (main (\<lambda>s. s \<noteq> ''.'') (labelwise (\<lambda>c. c)) (\<lambda>df. df)
        (\<lambda>u. if u = url ''UNRATE'' API_KEY
             then Json [''observations'' \<mapsto> [[(''date'', ''2024-06-01''), (''value'', ''4.1'')],
                                             [(''date'', ''2024-07-01''), (''value'', ''4.2'')]]]
             else if u = url ''M2SL'' API_KEY
             then Json [''observations'' \<mapsto> [[(''date'', ''2024-07-01''), (''value'', ''21000'')],
                                             [(''date'', ''2024-08-01''), (''value'', ''21050'')]]]
             else Request_failed HTTPError)
        (rev SERIES_IDS) \<lparr>fs = Map.empty, log = []\<rparr>) = None
   \<and> fs (snd (main (\<lambda>s. s \<noteq> ''.'') (labelwise (\<lambda>c. c)) (\<lambda>df. df)
        (\<lambda>u. if u = url ''UNRATE'' API_KEY
             then Json [''observations'' \<mapsto> [[(''date'', ''2024-06-01''), (''value'', ''4.1'')],
                                             [(''date'', ''2024-07-01''), (''value'', ''4.2'')]]]
             else if u = url ''M2SL'' API_KEY
             then Json [''observations'' \<mapsto> [[(''date'', ''2024-07-01''), (''value'', ''21000'')],
                                             [(''date'', ''2024-08-01''), (''value'', ''21050'')]]]
             else Request_failed HTTPError)
        (rev SERIES_IDS) \<lparr>fs = Map.empty, log = []\<rparr>))
     (path_join OUTPUT_DIR ''economic_indicators.csv'')
   = Some (File \<lparr>index = [''2024-06-01'', ''2024-07-01'', ''2024-08-01''],
                  columns = [(''unemployment Ratio'', [Some ''4.1'', Some ''4.2'', None]),
                             (''M2'', [None, Some ''21000'', Some ''21050''])]\<rparr>)"
proof -
  let ?http = "\<lambda>u. if u = url ''UNRATE'' API_KEY
             then Json [''observations'' \<mapsto> [[(''date'', ''2024-06-01''), (''value'', ''4.1'')],
                                             [(''date'', ''2024-07-01''), (''value'', ''4.2'')]]]
             else if u = url ''M2SL'' API_KEY
             then Json [''observations'' \<mapsto> [[(''date'', ''2024-07-01''), (''value'', ''21000'')],
                                             [(''date'', ''2024-08-01''), (''value'', ''21050'')]]]
             else Request_failed HTTPError"
  let ?w = "\<lparr>fs = Map.empty, log = []\<rparr> :: string dataframe world"
  let ?A = "\<lparr>index = [Some ''2024-06-01'', Some ''2024-07-01''],
            columns = [(''unemployment Ratio'', [Some ''4.1'', Some ''4.2''])]\<rparr>"
  let ?B = "\<lparr>index = [Some ''2024-07-01'', Some ''2024-08-01''],
            columns = [(''M2'', [Some ''21000'', Some ''21050''])]\<rparr>"
  let ?m = "\<lparr>index = [''2024-06-01'', ''2024-07-01'', ''2024-08-01''],
                  columns = [(''unemployment Ratio'', [Some ''4.1'', Some ''4.2'', None]),
                             (''M2'', [None, Some ''21000'', Some ''21050''])]\<rparr>"
  let ?D = "\<Union>(series_id, series_name)\<in>set SERIES_IDS.
                 set (response_dates (?http (url series_id API_KEY)))"
  have 1: "mset SERIES_IDS = mset SERIES_IDS" by simp
  have 2: "mset (rev SERIES_IDS) = mset SERIES_IDS" by simp
  have 3: "\<forall>(series_id, series_name)\<in>set SERIES_IDS.
        \<forall>k\<in>set (response_fields (?http (url series_id API_KEY))). k \<notin> snd ` set SERIES_IDS"
    by (simp add: SERIES_IDS_def response_fields_def url_def API_KEY_def)
  have 4: "inj_on (\<lambda>c::cell. c) {l \<in> ?D. (\<lambda>c::cell. c) l \<noteq> None}"
    by (simp add: inj_on_def)
  have 5: "\<forall>ls. set ls \<subseteq> ?D \<longrightarrow> labelwise (\<lambda>c. c) ls = labelwise (\<lambda>c::cell. c) ls"
    by simp
  have 6: "fs ?w = fs ?w \<or> fs ?w = fs (snd (main (\<lambda>s. s \<noteq> ''.'') (labelwise (\<lambda>c. c)) (\<lambda>df. df)
      ?http SERIES_IDS ?w))"
    by simp
  have c: "collect (\<lambda>(series_id, series_name). get_data (\<lambda>s. s \<noteq> ''.'') ?http series_id series_name API_KEY)
      SERIES_IDS ([], [], ?w)
      = ([?A, ?B], [''unemployment Ratio'', ''M2''],
         ?w\<lparr>log := [Done ''unemployment Ratio'', Done ''M2'']\<rparr>)"
    by (simp add: SERIES_IDS_def get_data_def url_def API_KEY_def DataFrame_def first_seen_def
        rename_columns_def set_index_def labelled_def notna_numeric_def mask_rows_def
        drop_realtime_def df_empty_def empty_frame_def)
  have m: "merge (labelwise (\<lambda>c. c)) [?A, ?B] = Inr ?m"
    by (simp add: merge_def pd_concat_def first_seen_def reindex_def to_datetime_def labelwise_def
        sort_index_def drop_realtime_def select_columns_def columns_order_def SERIES_IDS_def
        names_def)
  have r: "fst (main (\<lambda>s. s \<noteq> ''.'') (labelwise (\<lambda>c. c)) (\<lambda>df. df) ?http SERIES_IDS ?w) = None
    \<and> fs (snd (main (\<lambda>s. s \<noteq> ''.'') (labelwise (\<lambda>c. c)) (\<lambda>df. df) ?http SERIES_IDS ?w))
         (path_join OUTPUT_DIR ''economic_indicators.csv'') = Some (File ?m)"
    unfolding main_def c finish_def prod.case m sum.case
    by (simp add: save_data_output path_join_OUTPUT_DIR cleanup_unfold series_file_eq)
       (simp add: OUTPUT_DIR_def)?
  from main_order_independent [OF 1 2 3 4 5 5 6] r
  show ?thesis by simp
qed

text \<open>
  The claim as the specification states it fails.  Let the response for
  \<open>UNRATE\<close> carry a field named \<open>M2\<close>, the display name of the series
  \<open>M2SL\<close>.  The Merged Table then has two columns \<open>M2\<close>, and they stand in
  the order in which the two fetches completed: the file written when the
  fetches complete in the configured order differs from the file written when
  they complete in the reverse order.
\<close>

theorem main_order_dependent:
  "fs (snd (main (\<lambda>s. s \<noteq> ''.'') (labelwise (\<lambda>c. c)) (\<lambda>df. df)
        (\<lambda>u. if u = url ''UNRATE'' API_KEY
             then Json [''observations'' \<mapsto>
                    [[(''date'', ''2024-06-01''), (''value'', ''4.1''), (''M2'', ''7'')]]]
             else if u = url ''M2SL'' API_KEY
             then Json [''observations'' \<mapsto> [[(''date'', ''2024-06-01''), (''value'', ''21000'')]]]
             else Request_failed HTTPError)
        SERIES_IDS \<lparr>fs = Map.empty, log = []\<rparr>))
     (path_join OUTPUT_DIR ''economic_indicators.csv'')
   = Some (File \<lparr>index = [''2024-06-01''],
                  columns = [(''unemployment Ratio'', [Some ''4.1'']),
                             (''M2'', [Some ''7'']), (''M2'', [Some ''21000''])]\<rparr>)
   \<and> fs (snd (main (\<lambda>s. s \<noteq> ''.'') (labelwise (\<lambda>c. c)) (\<lambda>df. df)
        (\<lambda>u. if u = url ''UNRATE'' API_KEY
             then Json [''observations'' \<mapsto>
                    [[(''date'', ''2024-06-01''), (''value'', ''4.1''), (''M2'', ''7'')]]]
             else if u = url ''M2SL'' API_KEY
             then Json [''observations'' \<mapsto> [[(''date'', ''2024-06-01''), (''value'', ''21000'')]]]
             else Request_failed HTTPError)
        (rev SERIES_IDS) \<lparr>fs = Map.empty, log = []\<rparr>))
     (path_join OUTPUT_DIR ''economic_indicators.csv'')
   = Some (File \<lparr>index = [''2024-06-01''],
                  columns = [(''unemployment Ratio'', [Some ''4.1'']),
                             (''M2'', [Some ''21000'']), (''M2'', [Some ''7''])]\<rparr>)"
proof -
  let ?http = "\<lambda>u. if u = url ''UNRATE'' API_KEY
             then Json [''observations'' \<mapsto>
                    [[(''date'', ''2024-06-01''), (''value'', ''4.1''), (''M2'', ''7'')]]]
             else if u = url ''M2SL'' API_KEY
             then Json [''observations'' \<mapsto> [[(''date'', ''2024-06-01''), (''value'', ''21000'')]]]
             else Request_failed HTTPError"
  let ?w = "\<lparr>fs = Map.empty, log = []\<rparr> :: string dataframe world"
  let ?A = "\<lparr>index = [Some ''2024-06-01''],
            columns = [(''unemployment Ratio'', [Some ''4.1'']), (''M2'', [Some ''7''])]\<rparr>"
  let ?B = "\<lparr>index = [Some ''2024-06-01''], columns = [(''M2'', [Some ''21000''])]\<rparr>"
  let ?m1 = "\<lparr>index = [''2024-06-01''],
                  columns = [(''unemployment Ratio'', [Some ''4.1'']),
                             (''M2'', [Some ''7'']), (''M2'', [Some ''21000''])]\<rparr>"
  let ?m2 = "\<lparr>index = [''2024-06-01''],
                  columns = [(''unemployment Ratio'', [Some ''4.1'']),
                             (''M2'', [Some ''21000'']), (''M2'', [Some ''7''])]\<rparr>"
  have c1: "collect (\<lambda>(series_id, series_name). get_data (\<lambda>s. s \<noteq> ''.'') ?http series_id series_name API_KEY)
      SERIES_IDS ([], [], ?w)
      = ([?A, ?B], [''unemployment Ratio'', ''M2''],
         ?w\<lparr>log := [Done ''unemployment Ratio'', Done ''M2'']\<rparr>)"
    by (simp add: SERIES_IDS_def get_data_def url_def API_KEY_def DataFrame_def first_seen_def
        rename_columns_def set_index_def labelled_def notna_numeric_def mask_rows_def
        drop_realtime_def df_empty_def empty_frame_def)
  have c2: "collect (\<lambda>(series_id, series_name). get_data (\<lambda>s. s \<noteq> ''.'') ?http series_id series_name API_KEY)
      (rev SERIES_IDS) ([], [], ?w)
      = ([?B, ?A], [''M2'', ''unemployment Ratio''],
         ?w\<lparr>log := [Done ''M2'', Done ''unemployment Ratio'']\<rparr>)"
    by (simp add: SERIES_IDS_def get_data_def url_def API_KEY_def DataFrame_def first_seen_def
        rename_columns_def set_index_def labelled_def notna_numeric_def mask_rows_def
        drop_realtime_def df_empty_def empty_frame_def)
  have m1: "merge (labelwise (\<lambda>c. c)) [?A, ?B] = Inr ?m1"
    by (simp add: merge_def pd_concat_def first_seen_def reindex_def to_datetime_def labelwise_def
        sort_index_def drop_realtime_def select_columns_def columns_order_def SERIES_IDS_def
        names_def)
  have m2: "merge (labelwise (\<lambda>c. c)) [?B, ?A] = Inr ?m2"
    by (simp add: merge_def pd_concat_def first_seen_def reindex_def to_datetime_def labelwise_def
        sort_index_def drop_realtime_def select_columns_def columns_order_def SERIES_IDS_def
        names_def)
  have r1: "fs (snd (main (\<lambda>s. s \<noteq> ''.'') (labelwise (\<lambda>c. c)) (\<lambda>df. df) ?http SERIES_IDS ?w))
         (path_join OUTPUT_DIR ''economic_indicators.csv'') = Some (File ?m1)"
    unfolding main_def c1 finish_def prod.case m1 sum.case
    by (simp add: save_data_output path_join_OUTPUT_DIR cleanup_unfold series_file_eq)
       (simp add: OUTPUT_DIR_def)?
  have r2: "fs (snd (main (\<lambda>s. s \<noteq> ''.'') (labelwise (\<lambda>c. c)) (\<lambda>df. df) ?http (rev SERIES_IDS) ?w))
         (path_join OUTPUT_DIR ''economic_indicators.csv'') = Some (File ?m2)"
    unfolding main_def c2 finish_def prod.case m2 sum.case
    by (simp add: save_data_output path_join_OUTPUT_DIR cleanup_unfold series_file_eq)
       (simp add: OUTPUT_DIR_def)?
  from r1 r2 show ?thesis by (rule conjI)
qed

text \<open>
  The conversion itself can depend on the order of the labels.  Take a
  conversion that holds the labels to the format of the first one, as pandas
  does: it raises on the index \<open>2024-06-01\<close>, \<open>7/1/24\<close>, whose second
  label is not in the format of the first, and it converts the index
  \<open>7/1/24\<close>, \<open>2024-06-01\<close>, for whose first label it fixes no format,
  label by label.  Then the run ends with a \<open>ValueError\<close> when the fetch of
  \<open>UNRATE\<close> completes before that of \<open>M2SL\<close>, and writes the file when
  it completes after it.  No conversion label by label behaves like this
  one, so that the amended claim does not speak of such responses.
\<close>

lemma main_label_order_matters:
  "fst (main (\<lambda>s. s \<noteq> ''.'')
        (\<lambda>ls. if ls = [Some ''2024-06-01'', Some ''7/1/24''] then None
              else labelwise (\<lambda>c. if c = Some ''7/1/24'' then Some ''2024-07-01'' else c) ls)
        (\<lambda>df. df)
        (\<lambda>u. if u = url ''UNRATE'' API_KEY
             then Json [''observations'' \<mapsto> [[(''date'', ''2024-06-01''), (''value'', ''4.1'')]]]
             else if u = url ''M2SL'' API_KEY
             then Json [''observations'' \<mapsto> [[(''date'', ''7/1/24''), (''value'', ''21000'')]]]
             else Request_failed HTTPError)
        SERIES_IDS \<lparr>fs = Map.empty, log = []\<rparr>) = Some ValueError
   \<and> fs (snd (main (\<lambda>s. s \<noteq> ''.'')
        (\<lambda>ls. if ls = [Some ''2024-06-01'', Some ''7/1/24''] then None
              else labelwise (\<lambda>c. if c = Some ''7/1/24'' then Some ''2024-07-01'' else c) ls)
        (\<lambda>df. df)
        (\<lambda>u. if u = url ''UNRATE'' API_KEY
             then Json [''observations'' \<mapsto> [[(''date'', ''2024-06-01''), (''value'', ''4.1'')]]]
             else if u = url ''M2SL'' API_KEY
             then Json [''observations'' \<mapsto> [[(''date'', ''7/1/24''), (''value'', ''21000'')]]]
             else Request_failed HTTPError)
        (rev SERIES_IDS) \<lparr>fs = Map.empty, log = []\<rparr>))
     (path_join OUTPUT_DIR ''economic_indicators.csv'')
   = Some (File \<lparr>index = [''2024-06-01'', ''2024-07-01''],
                  columns = [(''unemployment Ratio'', [Some ''4.1'', None]),
                             (''M2'', [None, Some ''21000''])]\<rparr>)"
proof -
  let ?http = "\<lambda>u. if u = url ''UNRATE'' API_KEY
             then Json [''observations'' \<mapsto> [[(''date'', ''2024-06-01''), (''value'', ''4.1'')]]]
             else if u = url ''M2SL'' API_KEY
             then Json [''observations'' \<mapsto> [[(''date'', ''7/1/24''), (''value'', ''21000'')]]]
             else Request_failed HTTPError"
  let ?convert = "\<lambda>ls. if ls = [Some ''2024-06-01'', Some ''7/1/24''] then None
              else labelwise (\<lambda>c. if c = Some ''7/1/24'' then Some ''2024-07-01'' else c) ls"
  let ?w = "\<lparr>fs = Map.empty, log = []\<rparr> :: string dataframe world"
  let ?A = "\<lparr>index = [Some ''2024-06-01''], columns = [(''unemployment Ratio'', [Some ''4.1''])]\<rparr>"
  let ?B = "\<lparr>index = [Some ''7/1/24''], columns = [(''M2'', [Some ''21000''])]\<rparr>"
  let ?m = "\<lparr>index = [''2024-06-01'', ''2024-07-01''],
                  columns = [(''unemployment Ratio'', [Some ''4.1'', None]),
                             (''M2'', [None, Some ''21000''])]\<rparr>"
  have c1: "collect (\<lambda>(series_id, series_name). get_data (\<lambda>s. s \<noteq> ''.'') ?http series_id series_name API_KEY)
      SERIES_IDS ([], [], ?w)
      = ([?A, ?B], [''unemployment Ratio'', ''M2''],
         ?w\<lparr>log := [Done ''unemployment Ratio'', Done ''M2'']\<rparr>)"
    by (simp add: SERIES_IDS_def get_data_def url_def API_KEY_def DataFrame_def first_seen_def
        rename_columns_def set_index_def labelled_def notna_numeric_def mask_rows_def
        drop_realtime_def df_empty_def empty_frame_def)
  have c2: "collect (\<lambda>(series_id, series_name). get_data (\<lambda>s. s \<noteq> ''.'') ?http series_id series_name API_KEY)
      (rev SERIES_IDS) ([], [], ?w)
      = ([?B, ?A], [''M2'', ''unemployment Ratio''],
         ?w\<lparr>log := [Done ''M2'', Done ''unemployment Ratio'']\<rparr>)"
    by (simp add: SERIES_IDS_def get_data_def url_def API_KEY_def DataFrame_def first_seen_def
        rename_columns_def set_index_def labelled_def notna_numeric_def mask_rows_def
        drop_realtime_def df_empty_def empty_frame_def)
  have m1: "merge ?convert [?A, ?B] = Inl ValueError"
    by (simp add: merge_def pd_concat_def first_seen_def reindex_def to_datetime_def)
  have m2: "merge ?convert [?B, ?A] = Inr ?m"
    by (simp add: merge_def pd_concat_def first_seen_def reindex_def to_datetime_def labelwise_def
        sort_index_def drop_realtime_def select_columns_def columns_order_def SERIES_IDS_def
        names_def)
  have r1: "fst (main (\<lambda>s. s \<noteq> ''.'') ?convert (\<lambda>df. df) ?http SERIES_IDS ?w) = Some ValueError"
    unfolding main_def c1 finish_def prod.case m1 sum.case by simp
  have r2: "fs (snd (main (\<lambda>s. s \<noteq> ''.'') ?convert (\<lambda>df. df) ?http (rev SERIES_IDS) ?w))
         (path_join OUTPUT_DIR ''economic_indicators.csv'') = Some (File ?m)"
    unfolding main_def c2 finish_def prod.case m2 sum.case
    by (simp add: save_data_output path_join_OUTPUT_DIR cleanup_unfold series_file_eq)
       (simp add: OUTPUT_DIR_def)?
  from r1 r2 show ?thesis by (rule conjI)
qed

end
